theory Spec2Isabelle
  imports Complex_Main
begin

section \<open>Time series modelling helpers (workbooks/bmc\_functions/time\_series\_modeling.py)\<close>

text \<open>
  The module wraps pandas, pmdarima and statsmodels. The embedding keeps the control flow
  of every function of the module: what is computed, in which order, what each call passes
  on and what can raise. Prices are floats in the program and \<open>real\<close> here; the threshold
  of the split is a double, and its product with the length is rounded as the machine
  rounds it. The monthly time index is a list of month numbers (\<open>int\<close>), the month after
  \<open>t\<close> being \<open>t + 1\<close>.
\<close>

subsection \<open>Data\<close>

text \<open>
  A column label is what pandas hands back as \<open>Series.name\<close>: a numpy integer when the
  columns are an integer index, a numpy string, or a plain Python \<open>str\<close>.
\<close>

datatype label = NpInt int | NpStr string | PyStr string

record series =
  s_name :: label
  s_rows :: "(int \<times> real) list"

text \<open>A data frame: each column label with the rows (timestamp, value) of its column.\<close>

type_synonym dataframe = "label \<rightharpoonup> (int \<times> real) list"

text \<open>The Python values that travel through the keyword arguments of the module.\<close>

datatype pyval = PInt int | PStr string | PBool bool | PSeries series | PNone

text \<open>The forecast frame: timestamp, then the columns Lower CI, Upper CI, Forecast.\<close>

type_synonym frame = "(int \<times> real \<times> real \<times> real) list"

text \<open>
  The arguments of \<open>tsa.SARIMAX(endog, order=..., seasonal_order=...,
  enforce_invertibility=...)\<close>, and the result of \<open>.fit()\<close> on it.
\<close>

record sarimax_args =
  endog :: pyval
  sx_order :: "int \<times> int \<times> int"
  sx_seasonal_order :: "int \<times> int \<times> int \<times> int"
  enforce_invertibility :: bool

record fitted_model =
  fm_args :: sarimax_args
  fm_params :: "real list"

text \<open>The model pmdarima's search returns; the module reads its two order attributes.\<close>

record auto_model =
  am_order :: "int \<times> int \<times> int"
  am_seasonal_order :: "int \<times> int \<times> int \<times> int"

subsection \<open>Exceptions and effects\<close>

datatype type_error =
    Unexpected_keyword string
  | Multiple_values string
  | Too_many_positional
  | Missing_argument string
  | Unsupported_operand

datatype error =
    TypeError type_error
  | IndexError
  | KeyError label
  | AttributeError
  | OverflowError
  | ValueError
  | LibraryError string

text \<open>
  What is drawn on a figure, and the calls with an effect outside the function: drawing,
  showing and closing figures, printing with \<open>display\<close>, and fitting a SARIMAX model.
  Legends and axis labels are constant decorations and are left out.
\<close>

datatype drawing =
    Line string "(int \<times> real) list"
  | Band "(int \<times> real \<times> real) list"
  | Title label
  | Vline int
  | Diagnostics fitted_model

type_synonym figure = "drawing list"

datatype event =
    Subplots
  | Draw drawing
  | Show
  | Close
  | Tight_layout
  | Display string
  | Fit sarimax_args

text \<open>
  A computation returns a value or raises, and leaves the effects it had up to that
  point, in order.
\<close>

type_synonym 'a comp = "(error + 'a) \<times> event list"

definition ret :: "'a \<Rightarrow> 'a comp" where
  "ret x = (Inr x, [])"

definition raise :: "error \<Rightarrow> 'a comp" where
  "raise e = (Inl e, [])"

definition emit :: "event \<Rightarrow> unit comp" where
  "emit ev = (Inr (), [ev])"

definition seq :: "'a comp \<Rightarrow> ('a \<Rightarrow> 'b comp) \<Rightarrow> 'b comp" where
  "seq m f =
     (case fst m of
        Inl e \<Rightarrow> (Inl e, snd m)
      | Inr x \<Rightarrow> (fst (f x), snd m @ snd (f x)))"

definition lift :: "error + 'a \<Rightarrow> 'a comp" where
  "lift r = (r, [])"

text \<open>The models a run has fitted, in order.\<close>

fun fits :: "event list \<Rightarrow> sarimax_args list" where
  "fits [] = []"
| "fits (Fit a # evs) = a # fits evs"
| "fits (_ # evs) = fits evs"

subsection \<open>Python and pandas primitives\<close>

text \<open>\<open>round\<close> on a float: to the nearest integer, ties to the even one.\<close>

definition py_round :: "real \<Rightarrow> int" where
  "py_round x =
     (let f = \<lfloor>x\<rfloor>; d = x - of_int f
      in if d < 1 / 2 then f else if 1 / 2 < d then f + 1 else if even f then f else f + 1)"

text \<open>
  A Python float is an IEEE double: a finite one is \<open>m * 2 ^ e\<close> for integers \<open>m\<close> and \<open>e\<close>
  (\<open>Dbl m e\<close>; 53 bits of mantissa, exponents from -1074), or it is an infinity with its
  sign, or not a number. The sign of a zero is not kept: \<open>round\<close> does not see it.
\<close>

datatype pyfloat = Dbl int int | Inf_float bool | NaN_float

definition pow2 :: "int \<Rightarrow> real" where
  "pow2 e = (if 0 \<le> e then 2 ^ nat e else 1 / 2 ^ nat (- e))"

text \<open>\<open>int.bit_length()\<close>: the number of binary digits.\<close>

fun bit_length :: "nat \<Rightarrow> nat" where
  "bit_length n = (if n = 0 then 0 else Suc (bit_length (n div 2)))"

declare bit_length.simps [simp del]

text \<open>
  The double nearest to \<open>M * 2 ^ e\<close>, ties to the even mantissa: the mantissa is cut to 53
  bits, or to the bits above the exponent -1074 when the number is that small, and a result
  of \<open>2 ^ 1024\<close> or more is an infinity.
\<close>

definition round_double :: "int \<Rightarrow> int \<Rightarrow> pyfloat" where
  "round_double M e =
     (let s = max (int (bit_length (nat \<bar>M\<bar>)) - 53) (- 1074 - e);
          M' = (if s \<le> 0 then M else py_round (of_int M / 2 ^ nat s));
          e' = (if s \<le> 0 then e else e + s)
      in if M' \<noteq> 0 \<and> 1024 < int (bit_length (nat \<bar>M'\<bar>)) + e'
         then Inf_float (M < 0) else Dbl M' e')"

text \<open>The product of two floats: the exact product of two finite ones, rounded.\<close>

fun float_mul :: "pyfloat \<Rightarrow> pyfloat \<Rightarrow> pyfloat" where
  "float_mul (Dbl m1 e1) (Dbl m2 e2) = round_double (m1 * m2) (e1 + e2)"
| "float_mul (Dbl m e) (Inf_float s) = (if m = 0 then NaN_float else Inf_float (s \<noteq> (m < 0)))"
| "float_mul (Inf_float s) (Dbl m e) = (if m = 0 then NaN_float else Inf_float (s \<noteq> (m < 0)))"
| "float_mul (Inf_float s1) (Inf_float s2) = Inf_float (s1 \<noteq> s2)"
| "float_mul NaN_float _ = NaN_float"
| "float_mul _ NaN_float = NaN_float"

text \<open>
  \<open>n * x\<close> for an \<open>int\<close> \<open>n\<close> and a float \<open>x\<close>: the integer is converted to the nearest
  double, OverflowError when it is too large for one, and the two floats are multiplied.
\<close>

definition int_times_float :: "int \<Rightarrow> pyfloat \<Rightarrow> error + pyfloat" where
  "int_times_float n x =
     (case round_double n 0 of
        Dbl m e \<Rightarrow> Inr (float_mul (Dbl m e) x)
      | _ \<Rightarrow> Inl OverflowError)"

text \<open>
  \<open>round(x)\<close> on a float: the nearest integer of its exact value; OverflowError on an
  infinity, ValueError on not-a-number.
\<close>

fun round_float :: "pyfloat \<Rightarrow> error + int" where
  "round_float (Dbl m e) = Inr (py_round (of_int m * pow2 e))"
| "round_float (Inf_float s) = Inl OverflowError"
| "round_float NaN_float = Inl ValueError"

text \<open>A slice bound \<open>k\<close> on a sequence of length \<open>n\<close>: negative bounds count from the end.\<close>

definition slice_bound :: "nat \<Rightarrow> int \<Rightarrow> nat" where
  "slice_bound n k = (if k < 0 then nat (max 0 (int n + k)) else min n (nat k))"

definition iloc_to :: "series \<Rightarrow> int \<Rightarrow> series" where
  "iloc_to s k = s\<lparr>s_rows := take (slice_bound (length (s_rows s)) k) (s_rows s)\<rparr>"

definition iloc_from :: "series \<Rightarrow> int \<Rightarrow> series" where
  "iloc_from s k = s\<lparr>s_rows := drop (slice_bound (length (s_rows s)) k) (s_rows s)\<rparr>"

text \<open>\<open>s.index[-1]\<close>: the last timestamp; IndexError on an empty series.\<close>

definition last_index :: "series \<Rightarrow> error + int" where
  "last_index s = (case rev (s_rows s) of [] \<Rightarrow> Inl IndexError | (t, _) # _ \<Rightarrow> Inr t)"

text \<open>\<open>dataframe[zipcode]\<close>: the column as a series named by its label; KeyError otherwise.\<close>

definition column :: "dataframe \<Rightarrow> label \<Rightarrow> error + series" where
  "column df z =
     (case df z of None \<Rightarrow> Inl (KeyError z) | Some rows \<Rightarrow> Inr \<lparr>s_name = z, s_rows = rows\<rparr>)"

subsection \<open>ts\_split\<close>

text \<open>
  Lines 20 to 46. The threshold is a float, as the docstring has it. The cut is
  \<open>round(dataframe.shape[0] * threshold)\<close>: the product of the length and the threshold as
  floats, then \<open>round\<close>, which raises on a product that is not finite; nothing checks the
  series or the threshold. With \<open>show_vis\<close> the two parts are plotted, and the split point
  \<open>train.index[-1]\<close> is read for the vertical line.
\<close>

definition ts_split :: "series \<Rightarrow> pyfloat \<Rightarrow> bool \<Rightarrow> (series \<times> series) comp" where
  "ts_split dataframe threshold show_vis =
     seq (lift (int_times_float (int (length (s_rows dataframe))) threshold)) (\<lambda>product.
     seq (lift (round_float product)) (\<lambda>tts_cutoff.
     (let train = iloc_to dataframe tts_cutoff;
          test = iloc_from dataframe tts_cutoff
      in seq (if show_vis
              then seq (emit (Draw (Line ''Training Data'' (s_rows train)))) (\<lambda>_.
                   seq (emit (Draw (Line ''Testing Data'' (s_rows test)))) (\<lambda>_.
                   seq (emit (Draw (Title (s_name dataframe)))) (\<lambda>_.
                   seq (lift (last_index train)) (\<lambda>t.
                   seq (emit (Draw (Vline t))) (\<lambda>_.
                   emit Show)))))
              else ret ())
           (\<lambda>_. ret (train, test)))))"

text \<open>The literal \<open>.85\<close>, the default threshold: the double nearest to 85/100.\<close>

definition default_threshold :: pyfloat where
  "default_threshold = Dbl 7656119366529843 (- 53)"

subsection \<open>Calling a Python function\<close>

text \<open>
  A signature lists the parameters in order, each with its default if it has one. A call
  gives positional values and keyword values. Binding follows the interpreter: the
  positional values fill the leading parameters; each keyword, in the order written, must
  name a parameter (else TypeError, unexpected keyword argument) that has no value yet
  (else TypeError, multiple values); too many positional values is a TypeError; then the
  defaults fill what is left, a parameter without value or default being a TypeError (the
  first such parameter is reported).
\<close>

type_synonym signature = "(string \<times> pyval option) list"
type_synonym environment = "(string \<times> pyval) list"

fun bind_keywords ::
  "string list \<Rightarrow> environment \<Rightarrow> (string \<times> pyval) list \<Rightarrow> type_error + environment" where
  "bind_keywords ps env [] = Inr env"
| "bind_keywords ps env ((k, v) # kws) =
     (if k \<notin> set ps then Inl (Unexpected_keyword k)
      else if k \<in> set (map fst env) then Inl (Multiple_values k)
      else bind_keywords ps (env @ [(k, v)]) kws)"

fun fill_defaults :: "signature \<Rightarrow> environment \<Rightarrow> type_error + environment" where
  "fill_defaults [] env = Inr []"
| "fill_defaults ((p, d) # sg) env =
     (case (case map_of env p of Some v \<Rightarrow> Some v | None \<Rightarrow> d) of
        None \<Rightarrow> Inl (Missing_argument p)
      | Some v \<Rightarrow>
          (case fill_defaults sg env of Inl e \<Rightarrow> Inl e | Inr rest \<Rightarrow> Inr ((p, v) # rest)))"

definition bind_args ::
  "signature \<Rightarrow> pyval list \<Rightarrow> (string \<times> pyval) list \<Rightarrow> type_error + environment" where
  "bind_args sg pos kws =
     (case bind_keywords (map fst sg) (zip (map fst sg) pos) kws of
        Inl e \<Rightarrow> Inl e
      | Inr env \<Rightarrow>
          if length sg < length pos then Inl Too_many_positional else fill_defaults sg env)"

definition arg :: "environment \<Rightarrow> string \<Rightarrow> pyval" where
  "arg env p = (case map_of env p of Some v \<Rightarrow> v | None \<Rightarrow> PNone)"

subsection \<open>The libraries\<close>

text \<open>
  pmdarima and statsmodels are not part of the module. Their numerical work is a parameter
  of the model: the two differencing tests (they raise on data they cannot test, a series
  too short or a season \<open>m\<close> of 1 for instance), the information criterion of one candidate
  order (its fit can fail), the maximum likelihood estimate behind \<open>SARIMAX(...).fit()\<close>
  (it can fail), the prediction \<open>k\<close> steps ahead (lower bound, upper bound, mean), and the
  text of the summaries.
\<close>

record library =
  ndiffs :: "pyval \<Rightarrow> error + int"
  nsdiffs :: "pyval \<Rightarrow> pyval \<Rightarrow> error + int"
  information_criterion ::
    "pyval \<Rightarrow> int \<times> int \<times> int \<Rightarrow> int \<times> int \<times> int \<times> int \<Rightarrow> error + real"
  maximum_likelihood :: "sarimax_args \<Rightarrow> error + real list"
  predict :: "fitted_model \<Rightarrow> int \<Rightarrow> real \<times> real \<times> real"
  summary :: "fitted_model \<Rightarrow> string"
  auto_summary :: "auto_model \<Rightarrow> string"

text \<open>\<open>tsa.SARIMAX(...).fit()\<close>: the model is built from the arguments and estimated.\<close>

definition sarimax_fit :: "library \<Rightarrow> sarimax_args \<Rightarrow> fitted_model comp" where
  "sarimax_fit lib a =
     seq (emit (Fit a)) (\<lambda>_.
     case maximum_likelihood lib a of
       Inl e \<Rightarrow> raise e
     | Inr ps \<Rightarrow> ret \<lparr>fm_args = a, fm_params = ps\<rparr>)"

text \<open>An integer argument as a library reads it (a Python bool is an int).\<close>

fun as_int :: "pyval \<Rightarrow> int option" where
  "as_int (PInt i) = Some i"
| "as_int (PBool b) = Some (if b then 1 else 0)"
| "as_int _ = None"

type_synonym candidate = "int \<times> int \<times> int \<times> int"

definition candidates ::
  "int \<Rightarrow> int \<Rightarrow> int \<Rightarrow> int \<Rightarrow> int \<Rightarrow> int \<Rightarrow> int \<Rightarrow> int \<Rightarrow> candidate list" where
  "candidates start_p max_p start_q max_q start_P max_P start_Q max_Q =
     [(p, q, P, Q). p \<leftarrow> [start_p..max_p], q \<leftarrow> [start_q..max_q],
                    P \<leftarrow> [start_P..max_P], Q \<leftarrow> [start_Q..max_Q]]"

text \<open>
  Modelled from the spec: the order search of \<open>pmd.auto_arima\<close>, which is pmdarima's and
  not in the module. Section 4.2: a bounded search over (p, q, P, Q) within the maxima the
  caller supplies, d and D held fixed, selecting the combination minimizing an information
  criterion; a candidate whose fit fails is skipped, the search is never aborted; the
  single best order found is returned. The keyword \<open>error_action\<close> is what the module
  passes to get the skipping: \<open>'ignore'\<close> skips, and the library's \<open>'raise'\<close> hands the
  failure on. A search in which no candidate could be fitted has no order to return.
\<close>

fun grid_search ::
  "(candidate \<Rightarrow> error + real) \<Rightarrow> bool \<Rightarrow> candidate list \<Rightarrow> (candidate \<times> real) option
     \<Rightarrow> error + (candidate \<times> real) option" where
  "grid_search ic skip [] best = Inr best"
| "grid_search ic skip (c # cs) best =
     (case ic c of
        Inl e \<Rightarrow> if skip then grid_search ic skip cs best else Inl e
      | Inr v \<Rightarrow>
          grid_search ic skip cs
            (case best of
               None \<Rightarrow> Some (c, v)
             | Some (c', v') \<Rightarrow> if v < v' then Some (c, v) else Some (c', v')))"

definition pmd_auto_arima ::
  "library \<Rightarrow> pyval \<Rightarrow> pyval list \<Rightarrow> pyval \<Rightarrow> error + auto_model" where
  "pmd_auto_arima lib y bounds error_action =
     (case those (map as_int bounds) of
        Some [m, start_p, max_p, start_q, max_q, start_P, max_P, start_Q, max_Q, d, D] \<Rightarrow>
          (case grid_search (\<lambda>(p, q, P, Q). information_criterion lib y (p, d, q) (P, D, Q, m))
                  (error_action \<noteq> PStr ''raise'')
                  (candidates start_p max_p start_q max_q start_P max_P start_Q max_Q) None of
             Inl e \<Rightarrow> Inl e
           | Inr None \<Rightarrow> Inl (LibraryError ''auto_arima: no model could be fitted'')
           | Inr (Some ((p, q, P, Q), v)) \<Rightarrow>
               Inr \<lparr>am_order = (p, d, q), am_seasonal_order = (P, D, Q, m)\<rparr>)
      | _ \<Rightarrow> Inl (LibraryError ''auto_arima: bad argument''))"

text \<open>
  Modelled from the spec: \<open>get_forecast\<close> of a fitted statsmodels model, not in the
  module. Section 4.4 and section 8: a point forecast and the bounds of its confidence
  interval for each step, at future timestamps contiguous with the model's training index,
  one entry per step, the timestamps strictly increasing and continuing directly from the
  model's last training timestamp. A model without training timestamps has nowhere to
  continue from.
\<close>

definition get_forecast ::
  "library \<Rightarrow> fitted_model \<Rightarrow> int \<Rightarrow> error + (int \<times> real \<times> real \<times> real) list" where
  "get_forecast lib model steps =
     (case endog (fm_args model) of
        PSeries s \<Rightarrow>
          (case last_index s of
             Inl _ \<Rightarrow> Inl (LibraryError ''get_forecast: no training data'')
           | Inr t \<Rightarrow> Inr (map (\<lambda>k. (t + k, predict lib model k)) [1..steps]))
      | _ \<Rightarrow> Inl (LibraryError ''get_forecast: no training data''))"

definition conf_int :: "(int \<times> real \<times> real \<times> real) list \<Rightarrow> (int \<times> real \<times> real) list" where
  "conf_int forecast = map (\<lambda>(t, lo, hi, mean). (t, lo, hi)) forecast"

definition predicted_mean :: "(int \<times> real \<times> real \<times> real) list \<Rightarrow> (int \<times> real) list" where
  "predicted_mean forecast = map (\<lambda>(t, lo, hi, mean). (t, mean)) forecast"

subsection \<open>model\_performance\<close>

text \<open>
  Lines 49 to 63: the diagnostics are plotted and the figure closed; with \<open>show_vis\<close> they
  are plotted again; the summary and the figure are returned.
\<close>

definition model_performance :: "library \<Rightarrow> fitted_model \<Rightarrow> bool \<Rightarrow> (string \<times> figure) comp" where
  "model_performance lib ts_model show_vis =
     seq (emit (Draw (Diagnostics ts_model))) (\<lambda>_.
     seq (emit Close) (\<lambda>_.
     seq (if show_vis
          then seq (emit (Draw (Diagnostics ts_model))) (\<lambda>_. emit Tight_layout)
          else ret ()) (\<lambda>_.
     ret (summary lib ts_model, [Diagnostics ts_model]))))"

subsection \<open>auto\_arima\_model\<close>

text \<open>Lines 66 to 68: the parameters and their defaults.\<close>

definition auto_arima_model_sig :: signature where
  "auto_arima_model_sig =
     [(''timeseries_dataset'', None), (''m'', Some (PInt 12)),
      (''start_p'', Some (PInt 0)), (''max_p'', Some (PInt 7)),
      (''start_q'', Some (PInt 0)), (''max_q'', Some (PInt 7)),
      (''start_P'', Some (PInt 0)), (''start_Q'', Some (PInt 0)),
      (''max_P'', Some (PInt 7)), (''max_Q'', Some (PInt 7))]"

text \<open>
  Lines 89 to 99: the two differencing orders are computed, each test raising what the
  library raises, then the search is called with them as \<open>d\<close> and \<open>D\<close> and with
  \<open>error_action = 'ignore'\<close>.
\<close>

definition auto_arima_model ::
  "library \<Rightarrow> pyval list \<Rightarrow> (string \<times> pyval) list \<Rightarrow> error + auto_model" where
  "auto_arima_model lib pos kws =
     (case bind_args auto_arima_model_sig pos kws of
        Inl te \<Rightarrow> Inl (TypeError te)
      | Inr env \<Rightarrow>
          (case ndiffs lib (arg env ''timeseries_dataset'') of
             Inl e \<Rightarrow> Inl e
           | Inr n_d \<Rightarrow>
               (case nsdiffs lib (arg env ''timeseries_dataset'') (arg env ''m'') of
                  Inl e \<Rightarrow> Inl e
                | Inr n_D \<Rightarrow>
                    pmd_auto_arima lib (arg env ''timeseries_dataset'')
                      [arg env ''m'', arg env ''start_p'', arg env ''max_p'',
                       arg env ''start_q'', arg env ''max_q'',
                       arg env ''start_P'', arg env ''max_P'',
                       arg env ''start_Q'', arg env ''max_Q'', PInt n_d, PInt n_D]
                      (PStr ''ignore''))))"

subsection \<open>create\_best\_model\<close>

text \<open>Lines 103 to 105: the parameters and their defaults.\<close>

definition create_best_model_sig :: signature where
  "create_best_model_sig =
     [(''timeseries_dataset'', None), (''m'', Some (PInt 12)),
      (''start_p'', Some (PInt 0)), (''max_p'', Some (PInt 5)),
      (''start_q'', Some (PInt 0)), (''max_q'', Some (PInt 5)),
      (''start_P'', Some (PInt 0)), (''start_Q'', Some (PInt 0)),
      (''max_P'', Some (PInt 5)), (''max_Q'', Some (PInt 5)),
      (''show_vis'', Some (PBool False))]"

text \<open>
  Lines 132 to 137: the arguments of the call of \<open>auto_arima_model\<close>, as written, for the
  two differencing orders \<open>n_d\<close> and \<open>n_D\<close> of lines 129 and 130.
\<close>

definition selection_call ::
  "environment \<Rightarrow> int \<Rightarrow> int \<Rightarrow> pyval list \<times> (string \<times> pyval) list" where
  "selection_call env n_d n_D =
     ([arg env ''timeseries_dataset''],
      [(''m'', arg env ''m''),
       (''start_p'', arg env ''start_p''), (''max_p'', arg env ''max_p''),
       (''start_q'', arg env ''start_q''), (''max_q'', arg env ''max_q''),
       (''start_P'', arg env ''start_P''), (''start_Q'', arg env ''start_Q''),
       (''max_P'', arg env ''max_P''), (''max_Q'', arg env ''max_Q''),
       (''n_d'', PInt n_d), (''n_D'', PInt n_D), (''error_action'', PStr ''ignore'')])"

text \<open>
  Lines 128 to 147, with the function that the name \<open>auto_arima_model\<close> is bound to as a
  parameter \<open>callee\<close>: the two differencing tests, each raising what the library raises,
  the call, then the SARIMAX model on the same data with the orders of the result, then
  the optional display.
\<close>

definition create_best_model_calling ::
  "(pyval list \<Rightarrow> (string \<times> pyval) list \<Rightarrow> error + auto_model) \<Rightarrow> library
     \<Rightarrow> pyval list \<Rightarrow> (string \<times> pyval) list \<Rightarrow> (auto_model \<times> fitted_model) comp" where
  "create_best_model_calling callee lib pos kws =
     (case bind_args create_best_model_sig pos kws of
        Inl te \<Rightarrow> raise (TypeError te)
      | Inr env \<Rightarrow>
          seq (lift (ndiffs lib (arg env ''timeseries_dataset''))) (\<lambda>n_d.
          seq (lift (nsdiffs lib (arg env ''timeseries_dataset'') (arg env ''m''))) (\<lambda>n_D.
          seq (lift (callee (fst (selection_call env n_d n_D))
                       (snd (selection_call env n_d n_D))))
            (\<lambda>auto_model_best.
          seq (sarimax_fit lib
                 \<lparr>endog = arg env ''timeseries_dataset'',
                  sx_order = am_order auto_model_best,
                  sx_seasonal_order = am_seasonal_order auto_model_best,
                  enforce_invertibility = False\<rparr>) (\<lambda>best_model.
          seq (if arg env ''show_vis'' = PBool True
               then seq (emit (Display (auto_summary lib auto_model_best))) (\<lambda>_.
                    seq (model_performance lib best_model False) (\<lambda>(s, fig).
                    emit (Display s)))
               else ret ()) (\<lambda>_.
          ret (auto_model_best, best_model)))))))"

text \<open>The function of the module: the name is bound to \<open>auto_arima_model\<close> above.\<close>

definition create_best_model ::
  "library \<Rightarrow> pyval list \<Rightarrow> (string \<times> pyval) list \<Rightarrow> (auto_model \<times> fitted_model) comp" where
  "create_best_model lib = create_best_model_calling (auto_arima_model lib) lib"

subsection \<open>forecast\_and\_ci\<close>

text \<open>
  Lines 157 to 166. Without test data the number of steps is \<open>12 * n_yrs_future\<close>, a
  TypeError when that is None too; with test data it is \<open>len(test_data)\<close>. The frame is
  the confidence interval, renamed, with the predicted mean as third column; both carry
  the index of the forecast, so the assignment pairs them row by row.
\<close>

definition forecast_and_ci ::
  "library \<Rightarrow> fitted_model \<Rightarrow> series option \<Rightarrow> int option \<Rightarrow> error + frame" where
  "forecast_and_ci lib model test_data n_yrs_future =
     (case (case test_data of
              None \<Rightarrow>
                (case n_yrs_future of
                   None \<Rightarrow> Inl (TypeError Unsupported_operand)
                 | Some n \<Rightarrow> get_forecast lib model (12 * n))
            | Some td \<Rightarrow> get_forecast lib model (int (length (s_rows td)))) of
        Inl e \<Rightarrow> Inl e
      | Inr forecast \<Rightarrow>
          Inr (map2 (\<lambda>(t, lo, hi) (t', mean). (t, lo, hi, mean))
                 (conf_int forecast) (predicted_mean forecast)))"

subsection \<open>The two forecast plots\<close>

definition draw_all :: "drawing list \<Rightarrow> unit comp" where
  "draw_all ds = (Inr (), map Draw ds)"

text \<open>Lines 169 to 190.\<close>

definition plot_forecast_ttf ::
  "series \<Rightarrow> series \<Rightarrow> frame \<Rightarrow> int \<Rightarrow> bool \<Rightarrow> figure comp" where
  "plot_forecast_ttf train test forecast_df n_yrs_past show_vis =
     (let last_n_lags = 12 * n_yrs_past;
          content =
            [Line ''Training Data'' (s_rows (iloc_from train (- last_n_lags))),
             Line ''Test Data'' (s_rows test),
             Line ''Forecast'' (map (\<lambda>(t, lo, hi, mean). (t, mean)) forecast_df),
             Band (map (\<lambda>(t, lo, hi, mean). (t, lo, hi)) forecast_df),
             Title (s_name train)]
      in seq (emit Subplots) (\<lambda>_.
         seq (draw_all content) (\<lambda>_.
         seq (lift (last_index train)) (\<lambda>t.
         seq (emit (Draw (Vline t))) (\<lambda>_.
         seq (emit (if show_vis then Show else Close)) (\<lambda>_.
         ret (content @ [Vline t])))))))"

text \<open>Lines 193 to 215.\<close>

definition plot_forecast_final :: "series \<Rightarrow> frame \<Rightarrow> bool \<Rightarrow> figure comp" where
  "plot_forecast_final zipcode_val forecast_full show_vis =
     (let content =
            [Line ''Original Data'' (s_rows zipcode_val),
             Line ''Forecast'' (map (\<lambda>(t, lo, hi, mean). (t, mean)) forecast_full),
             Band (map (\<lambda>(t, lo, hi, mean). (t, lo, hi)) forecast_full),
             Title (s_name zipcode_val)]
      in seq (emit Subplots) (\<lambda>_.
         seq (draw_all content) (\<lambda>_.
         seq (lift (last_index zipcode_val)) (\<lambda>t.
         seq (emit (Draw (Vline t))) (\<lambda>_.
         seq (emit (if show_vis then Show else Close)) (\<lambda>_.
         ret (content @ [Vline t])))))))"

subsection \<open>Return on investment\<close>

text \<open>
  Lines 268 to 273. The investment cost is the cell in row 0, column 2 of the forecast
  frame: the first value of the column Forecast. Every cell of the frame, in all three
  columns, is then normalised against that one number. Float division by zero does not
  raise in pandas: the cell is infinite or not a number, \<open>Non_finite\<close> here.
\<close>

datatype cell = Finite real | Non_finite

type_synonym roi_frame = "(int \<times> cell \<times> cell \<times> cell) list"

record roi_row =
  roi_name :: label
  roi_lower :: cell
  roi_upper :: cell
  roi_forecast :: cell

definition investment_cost :: "frame \<Rightarrow> error + real" where
  "investment_cost forecast_full =
     (case forecast_full of [] \<Rightarrow> Inl IndexError | (t, lo, hi, mean) # _ \<Rightarrow> Inr mean)"

definition roi_value :: "real \<Rightarrow> real \<Rightarrow> cell" where
  "roi_value cost v = (if cost = 0 then Non_finite else Finite ((v - cost) / cost * 100))"

definition roi_df :: "frame \<Rightarrow> real \<Rightarrow> roi_frame" where
  "roi_df forecast_full cost =
     map (\<lambda>(t, lo, hi, mean). (t, roi_value cost lo, roi_value cost hi, roi_value cost mean))
       forecast_full"

text \<open>\<open>roi_df.iloc[-1]\<close>: the last row, IndexError on an empty frame.\<close>

definition last_row :: "roi_frame \<Rightarrow> error + int \<times> cell \<times> cell \<times> cell" where
  "last_row rf = (case rev rf of [] \<Rightarrow> Inl IndexError | r # _ \<Rightarrow> Inr r)"

text \<open>
  \<open>zipcode_val.name.astype('str')\<close>: numpy scalars have the method, a Python \<open>str\<close> has
  not. The text of an integer is its decimal notation.
\<close>

fun digits :: "nat \<Rightarrow> string" where
  "digits n =
     (if n < 10 then [char_of (48 + n)] else digits (n div 10) @ [char_of (48 + n mod 10)])"

declare digits.simps [simp del]

definition show_int :: "int \<Rightarrow> string" where
  "show_int i = (if i < 0 then CHR ''-'' # digits (nat (- i)) else digits (nat i))"

fun astype_str :: "label \<Rightarrow> error + label" where
  "astype_str (NpInt i) = Inr (NpStr (show_int i))"
| "astype_str (NpStr s) = Inr (NpStr s)"
| "astype_str (PyStr s) = Inl AttributeError"

subsection \<open>ts\_modeling\_workflow\<close>

text \<open>
  Lines 220 to 278, again with the function behind the name \<open>auto_arima_model\<close> as a
  parameter. The result is the tuple of line 278: the future forecast frame, the final
  ROI, summary and diagnostics of the fit on the training data, summary and diagnostics of
  the fit on the whole series, and the two forecast figures.
\<close>

type_synonym workflow_result =
  "frame \<times> roi_row \<times> string \<times> figure \<times> string \<times> figure \<times> figure \<times> figure"

definition ts_modeling_workflow_calling ::
  "(pyval list \<Rightarrow> (string \<times> pyval) list \<Rightarrow> error + auto_model) \<Rightarrow> library
     \<Rightarrow> dataframe \<Rightarrow> label \<Rightarrow> pyfloat \<Rightarrow> int \<Rightarrow> int \<Rightarrow> int \<Rightarrow> bool \<Rightarrow> workflow_result comp" where
  "ts_modeling_workflow_calling callee lib dataframe zipcode threshold m n_yrs_past
       n_yrs_future show_vis =
     seq (lift (column dataframe zipcode)) (\<lambda>zipcode_val.
     seq (ts_split zipcode_val threshold show_vis) (\<lambda>(train, test).
     seq (create_best_model_calling callee lib []
            [(''timeseries_dataset'', PSeries train), (''m'', PInt m)])
         (\<lambda>(auto_model_train, best_model_train).
     seq (model_performance lib best_model_train False) (\<lambda>(summary_train, diag_train).
     seq (lift (forecast_and_ci lib best_model_train (Some test) None)) (\<lambda>forecast_train.
     seq (plot_forecast_ttf train test forecast_train n_yrs_past show_vis) (\<lambda>training_frcst.
     seq (sarimax_fit lib
            \<lparr>endog = PSeries zipcode_val,
             sx_order = am_order auto_model_train,
             sx_seasonal_order = am_seasonal_order auto_model_train,
             enforce_invertibility = False\<rparr>) (\<lambda>best_model_full.
     seq (model_performance lib best_model_full False) (\<lambda>(summary_full, diag_full).
     seq (lift (forecast_and_ci lib best_model_full None (Some n_yrs_future)))
         (\<lambda>forecast_full.
     seq (plot_forecast_final zipcode_val forecast_full show_vis) (\<lambda>final_frcst.
     seq (lift (investment_cost forecast_full)) (\<lambda>cost.
     seq (lift (last_row (roi_df forecast_full cost))) (\<lambda>(t, lo, hi, mean).
     seq (lift (astype_str (s_name zipcode_val))) (\<lambda>name.
     seq (if \<not> show_vis then emit Close else ret ()) (\<lambda>_.
     ret (forecast_full,
          \<lparr>roi_name = name, roi_lower = lo, roi_upper = hi, roi_forecast = mean\<rparr>,
          summary_train, diag_train, summary_full, diag_full,
          training_frcst, final_frcst)))))))))))))))"

definition ts_modeling_workflow ::
  "library \<Rightarrow> dataframe \<Rightarrow> label \<Rightarrow> pyfloat \<Rightarrow> int \<Rightarrow> int \<Rightarrow> int \<Rightarrow> bool \<Rightarrow> workflow_result comp" where
  "ts_modeling_workflow lib = ts_modeling_workflow_calling (auto_arima_model lib) lib"

subsection \<open>make\_dict\<close>

text \<open>
  Lines 280 to 300: the workflow with its default threshold 0.85 and its default numbers
  of years, 5 and 2; the result is a dictionary of four entries, two of them dictionaries
  with the keys \<open>'train'\<close> and \<open>'full'\<close>.
\<close>

datatype bundle_value =
    Forecasted_prices frame
  | Roi roi_row
  | Model_metrics "string \<rightharpoonup> string \<times> figure"
  | Model_visuals "string \<rightharpoonup> figure"

type_synonym result_bundle = "string \<rightharpoonup> bundle_value"

definition make_dict_calling ::
  "(pyval list \<Rightarrow> (string \<times> pyval) list \<Rightarrow> error + auto_model) \<Rightarrow> library
     \<Rightarrow> dataframe \<Rightarrow> label \<Rightarrow> int \<Rightarrow> bool \<Rightarrow> result_bundle comp" where
  "make_dict_calling callee lib dataframe zipcode m show_vis =
     seq (ts_modeling_workflow_calling callee lib dataframe zipcode default_threshold m 5 2
            show_vis)
       (\<lambda>(forecast, roi, summary_train, diag_train, summary_full, diag_full,
           training_frcst, final_frcst).
          (let metrics = [''train'' \<mapsto> (summary_train, diag_train),
                          ''full'' \<mapsto> (summary_full, diag_full)];
               forecast_vis = [''train'' \<mapsto> training_frcst, ''full'' \<mapsto> final_frcst]
           in ret [''forecasted_prices'' \<mapsto> Forecasted_prices forecast,
                   ''ROI'' \<mapsto> Roi roi,
                   ''model_metrics'' \<mapsto> Model_metrics metrics,
                   ''model_visuals'' \<mapsto> Model_visuals forecast_vis]))"

definition make_dict :: "library \<Rightarrow> dataframe \<Rightarrow> label \<Rightarrow> int \<Rightarrow> bool \<Rightarrow> result_bundle comp" where
  "make_dict lib = make_dict_calling (auto_arima_model lib) lib"

section \<open>A sample input\<close>

text \<open>
  A zipcode column of four months, a data frame holding it, a column of thirty months,
  and a stand-in for the libraries whose numbers are simple enough to follow by hand: the
  differencing tests answer 1 and 0, the first refusing an empty series and the second a
  season of 1 or less, as pmdarima's do; every candidate order with \<open>p = 1\<close> fails to
  fit, the information criterion of the others is \<open>q + P + Q - p\<close>, and the forecast \<open>k\<close>
  steps ahead is \<open>100 + k\<close> with bounds ten below and ten above.
\<close>

definition example_series :: series where
  "example_series =
     \<lparr>s_name = NpInt 60601, s_rows = [(1, 100), (2, 110), (3, 120), (4, 130)]\<rparr>"

definition long_series :: series where
  "long_series =
     \<lparr>s_name = NpInt 60601, s_rows = map (\<lambda>t. (t, 100 + of_int t)) [1..30]\<rparr>"

definition example_dataframe :: dataframe where
  "example_dataframe = [NpInt 60601 \<mapsto> [(1, 100), (2, 110), (3, 120), (4, 130)]]"

definition example_library :: library where
  "example_library =
     \<lparr>ndiffs = (\<lambda>y. case y of
         PSeries s \<Rightarrow> if s_rows s = [] then Inl ValueError else Inr 1
       | _ \<Rightarrow> Inl ValueError),
      nsdiffs = (\<lambda>y m. case as_int m of
         Some k \<Rightarrow> if k \<le> 1 then Inl ValueError else Inr 0
       | None \<Rightarrow> Inl ValueError),
      information_criterion = (\<lambda>y (p, d, q) (P, D, Q, m).
         if p = 1 then Inl (LibraryError ''singular'') else Inr (of_int (q + P + Q - p))),
      maximum_likelihood = (\<lambda>a. Inr [1 / 2]),
      predict = (\<lambda>model k. (100 + of_int k - 10, 100 + of_int k + 10, 100 + of_int k)),
      summary = (\<lambda>model. ''SARIMAX Results''),
      auto_summary = (\<lambda>model. ''ARIMA Results'')\<rparr>"

definition example_model :: fitted_model where
  "example_model =
     \<lparr>fm_args = \<lparr>endog = PSeries example_series, sx_order = (0, 1, 0),
                  sx_seasonal_order = (0, 0, 0, 12), enforce_invertibility = False\<rparr>,
      fm_params = [1 / 2]\<rparr>"

text \<open>An order selection that accepts every call and answers with one fixed order.\<close>

definition example_callee :: "pyval list \<Rightarrow> (string \<times> pyval) list \<Rightarrow> error + auto_model" where
  "example_callee pos kws = Inr \<lparr>am_order = (0, 1, 0), am_seasonal_order = (0, 0, 0, 12)\<rparr>"

section \<open>Properties\<close>

subsection \<open>Sequencing\<close>

lemma seq_ret [simp]: "seq (ret x) f = f x"
  by (simp add: seq_def ret_def)

lemma seq_raise [simp]: "seq (raise e) f = raise e"
  by (simp add: seq_def raise_def)

lemma seq_lift_Inr [simp]: "seq (lift (Inr x)) f = f x"
  by (simp add: seq_def lift_def)

lemma seq_lift_Inl [simp]: "seq (lift (Inl e)) f = raise e"
  by (simp add: seq_def lift_def raise_def)

lemma fst_seq: "fst (seq m f) = (case fst m of Inl e \<Rightarrow> Inl e | Inr x \<Rightarrow> fst (f x))"
  by (simp add: seq_def split: sum.splits)

lemma snd_seq: "snd (seq m f) = (case fst m of Inl e \<Rightarrow> snd m | Inr x \<Rightarrow> snd m @ snd (f x))"
  by (simp add: seq_def split: sum.splits)

lemma fst_lift [simp]: "fst (lift r) = r" and snd_lift [simp]: "snd (lift r) = []"
  by (simp_all add: lift_def)

lemma fst_ret [simp]: "fst (ret x) = Inr x" and snd_ret [simp]: "snd (ret x) = []"
  by (simp_all add: ret_def)

lemma fst_raise [simp]: "fst (raise e) = Inl e" and snd_raise [simp]: "snd (raise e) = []"
  by (simp_all add: raise_def)

lemma fst_emit [simp]: "fst (emit ev) = Inr ()" and snd_emit [simp]: "snd (emit ev) = [ev]"
  by (simp_all add: emit_def)

lemma fst_draw_all [simp]: "fst (draw_all ds) = Inr ()"
  and snd_draw_all [simp]: "snd (draw_all ds) = map Draw ds"
  by (simp_all add: draw_all_def)

lemma fits_append: "fits (xs @ ys) = fits xs @ fits ys"
  by (induction xs rule: fits.induct) simp_all

lemma fits_draws [simp]: "fits (map Draw ds) = []"
  by (induction ds) simp_all

lemma fits_seq:
  "fits (snd (seq m f)) =
     fits (snd m) @ (case fst m of Inl e \<Rightarrow> [] | Inr x \<Rightarrow> fits (snd (f x)))"
  by (simp add: snd_seq fits_append split: sum.splits)

subsection \<open>Rounding to a double\<close>

lemma py_round_cases: "py_round x = \<lfloor>x\<rfloor> \<or> py_round x = \<lfloor>x\<rfloor> + 1"
  by (simp add: py_round_def Let_def)

lemma py_round_le_int:
  assumes "x \<le> of_int k"
  shows "py_round x \<le> k"
proof -
  have fk: "\<lfloor>x\<rfloor> \<le> k" using assms by (simp add: floor_le_iff)
  show ?thesis
  proof (cases "\<lfloor>x\<rfloor> = k")
    case True
    then have "x = of_int k" using assms of_int_floor_le [of x] by linarith
    then show ?thesis by (simp add: py_round_def)
  next
    case False
    then show ?thesis using fk py_round_cases [of x] by linarith
  qed
qed

lemma py_round_ge_int:
  assumes "of_int k \<le> x"
  shows "k \<le> py_round x"
proof -
  have "k \<le> \<lfloor>x\<rfloor>" using assms by (simp add: le_floor_iff)
  then show ?thesis using py_round_cases [of x] by linarith
qed

lemma pow2_powr: "pow2 e = 2 powr (of_int e)"
proof (cases "0 \<le> e")
  case True
  then have "2 powr (of_int e) = (2::real) powr (real (nat e))" by simp
  also have "\<dots> = 2 ^ nat e" by (simp add: powr_realpow)
  finally show ?thesis using True by (simp add: pow2_def)
next
  case False
  then have "(2::real) powr (of_int e) = 2 powr (- real (nat (- e)))" by simp
  also have "\<dots> = 1 / 2 ^ nat (- e)" by (simp add: powr_minus powr_realpow divide_inverse)
  finally show ?thesis using False by (simp add: pow2_def)
qed

lemma pow2_pos [simp]: "0 < pow2 e"
  by (simp add: pow2_powr)

lemma pow2_nonneg [simp]: "0 \<le> pow2 e"
  using pow2_pos [of e] by (rule less_imp_le)

lemma pow2_nonzero [simp]: "pow2 e \<noteq> 0"
  by (metis less_irrefl pow2_pos)

lemma pow2_add: "pow2 (a + b) = pow2 a * pow2 b"
  by (simp add: pow2_powr powr_add)

lemma pow2_less_iff: "pow2 a < pow2 b \<longleftrightarrow> a < b"
  by (simp add: pow2_powr)

lemma pow2_le_iff: "pow2 a \<le> pow2 b \<longleftrightarrow> a \<le> b"
  by (simp add: pow2_powr)

lemma pow2_nat: "pow2 (int k) = 2 ^ k"
  by (simp add: pow2_def)

lemma bit_length_bounds:
  "0 < n \<Longrightarrow> 2 ^ (bit_length n - 1) \<le> n \<and> n < 2 ^ bit_length n"
proof (induction n rule: bit_length.induct)
  case (1 n)
  define h where "h = n div 2"
  have h1: "2 * h \<le> n" and h2: "n < 2 * h + 2"
    unfolding h_def by linarith+
  have b: "bit_length n = Suc (bit_length h)"
    using 1(2) unfolding h_def by (simp add: bit_length.simps [of n])
  show ?case
  proof (cases "h = 0")
    case True
    then have "bit_length h = 0" by (simp add: bit_length.simps [of 0])
    moreover have "n = 1" using True h2 1(2) by simp
    ultimately show ?thesis unfolding b by simp
  next
    case False
    then have ih: "2 ^ (bit_length h - 1) \<le> h \<and> h < 2 ^ bit_length h"
      using 1 unfolding h_def by simp
    define q :: nat where "q = 2 ^ (bit_length h - 1)"
    have "0 < bit_length h" using False by (simp add: bit_length.simps [of h])
    then have "(2::nat) ^ bit_length h = 2 * q"
      unfolding q_def by (cases "bit_length h") simp_all
    then show ?thesis using ih h1 h2 unfolding b q_def [symmetric] by simp
  qed
qed

lemma bit_length_zero [simp]: "bit_length 0 = 0"
  by (simp add: bit_length.simps [of 0])

lemma bit_length_rec: "0 < n \<Longrightarrow> bit_length n = Suc (bit_length (n div 2))"
  by (subst bit_length.simps) simp

lemma bit_length_pow2:
  assumes "0 < M"
  shows "pow2 (int (bit_length (nat M)) - 1) \<le> of_int M"
proof -
  have n: "0 < nat M" using assms by simp
  then obtain k where k: "bit_length (nat M) = Suc k"
    by (simp add: bit_length_rec)
  from bit_length_bounds [OF n] have "2 ^ k \<le> nat M" unfolding k by simp
  then have "real (2 ^ k) \<le> real (nat M)" by (rule of_nat_mono)
  then have r: "(2::real) ^ k \<le> of_int M" using assms by simp
  have "pow2 (int (Suc k) - 1) = 2 ^ k" using pow2_nat [of k] by simp
  then show ?thesis using r unfolding k by simp
qed

lemma pow2_53: "pow2 53 = 2 ^ 53"
  using pow2_nat [of 53] by simp

lemma round_double_unfold:
  "round_double M e =
     (if (if max (int (bit_length (nat \<bar>M\<bar>)) - 53) (- 1074 - e) \<le> 0 then M
          else py_round (of_int M / 2 ^ nat (max (int (bit_length (nat \<bar>M\<bar>)) - 53) (- 1074 - e)))) \<noteq> 0
         \<and> 1024 < int (bit_length (nat \<bar>if max (int (bit_length (nat \<bar>M\<bar>)) - 53) (- 1074 - e) \<le> 0 then M
          else py_round (of_int M / 2 ^ nat (max (int (bit_length (nat \<bar>M\<bar>)) - 53) (- 1074 - e)))\<bar>))
             + (if max (int (bit_length (nat \<bar>M\<bar>)) - 53) (- 1074 - e) \<le> 0 then e
                else e + max (int (bit_length (nat \<bar>M\<bar>)) - 53) (- 1074 - e))
      then Inf_float (M < 0)
      else Dbl (if max (int (bit_length (nat \<bar>M\<bar>)) - 53) (- 1074 - e) \<le> 0 then M
          else py_round (of_int M / 2 ^ nat (max (int (bit_length (nat \<bar>M\<bar>)) - 53) (- 1074 - e))))
            (if max (int (bit_length (nat \<bar>M\<bar>)) - 53) (- 1074 - e) \<le> 0 then e
                else e + max (int (bit_length (nat \<bar>M\<bar>)) - 53) (- 1074 - e)))"
  unfolding round_double_def Let_def ..

text \<open>Rounding a nonnegative product: the mantissa after rounding, on its grid.\<close>

lemma grid_le:
  assumes "0 \<le> M" and "0 < s" and "s = max (int (bit_length (nat \<bar>M\<bar>)) - 53) (- 1074 - e)"
    and "of_int M * pow2 e \<le> of_int n" and "n < 2 ^ 53"
  shows "of_int (py_round (of_int M / 2 ^ nat s)) * pow2 (e + s) \<le> of_int n"
proof -
  have ps: "(2::real) ^ nat s = pow2 s" using assms(2) by (simp add: pow2_def)
  show ?thesis
  proof (cases "e + s \<le> 0")
    case True
    define K where "K = n * 2 ^ nat (- (e + s))"
    have K: "of_int K * pow2 (e + s) = of_int n"
      using True by (simp add: K_def pow2_def)
    have "of_int M / 2 ^ nat s * pow2 (e + s) = of_int M * pow2 e"
      unfolding ps by (simp add: pow2_add)
    then have "of_int M / 2 ^ nat s * pow2 (e + s) \<le> of_int K * pow2 (e + s)"
      using assms(4) K by simp
    then have "(of_int M :: real) / 2 ^ nat s \<le> of_int K"
      using pow2_pos [of "e + s"] by (simp only: mult_le_cancel_right_pos)
    then have "py_round (of_int M / 2 ^ nat s) \<le> K" by (rule py_round_le_int)
    then have "of_int (py_round (of_int M / 2 ^ nat s)) * pow2 (e + s) \<le> of_int K * pow2 (e + s)"
      using pow2_pos [of "e + s"] by (simp only: mult_le_cancel_right_pos of_int_le_iff)
    then show ?thesis using K by simp
  next
    case False
    then have sb: "s = int (bit_length (nat \<bar>M\<bar>)) - 53" using assms(3) by linarith
    then have "0 < bit_length (nat \<bar>M\<bar>)" using assms(2) by linarith
    then have "M \<noteq> 0" by (cases "M = 0") simp_all
    then have Mp: "0 < M" using assms(1) by simp
    then have a: "\<bar>M\<bar> = M" by simp
    have "pow2 (int (bit_length (nat M)) - 1) \<le> of_int M" using Mp by (rule bit_length_pow2)
    then have "pow2 (s + 52) \<le> of_int M" unfolding sb a by (simp add: algebra_simps)
    then have "pow2 (s + 52) * pow2 e \<le> of_int M * pow2 e"
      using pow2_pos [of e] by (simp only: mult_le_cancel_right_pos)
    moreover have "pow2 (s + 52 + e) = pow2 (s + 52) * pow2 e" by (rule pow2_add)
    ultimately have "pow2 (s + 52 + e) \<le> of_int n" using assms(4) by linarith
    moreover have "pow2 53 \<le> pow2 (s + 52 + e)" using False by (simp add: pow2_le_iff)
    moreover have "(of_int n :: real) < 2 ^ 53" using assms(5) by (simp add: of_int_less_numeral_power_cancel_iff)
    ultimately show ?thesis by (simp add: pow2_53)
  qed
qed

lemma finite_of_bound:
  assumes "0 \<le> M'" and "of_int M' * pow2 e' \<le> of_int n" and "n < 2 ^ 53"
  shows "\<not> (M' \<noteq> 0 \<and> 1024 < int (bit_length (nat \<bar>M'\<bar>)) + e')"
proof
  assume h: "M' \<noteq> 0 \<and> 1024 < int (bit_length (nat \<bar>M'\<bar>)) + e'"
  then have Mp: "0 < M'" using assms(1) by simp
  then have a: "\<bar>M'\<bar> = M'" by simp
  have "pow2 (int (bit_length (nat M')) - 1) \<le> of_int M'" using Mp by (rule bit_length_pow2)
  then have "pow2 (int (bit_length (nat M')) - 1) * pow2 e' \<le> of_int M' * pow2 e'"
    using pow2_pos [of e'] by (simp only: mult_le_cancel_right_pos)
  moreover have "pow2 (int (bit_length (nat M')) - 1 + e') =
      pow2 (int (bit_length (nat M')) - 1) * pow2 e'" by (rule pow2_add)
  ultimately have "pow2 (int (bit_length (nat M')) - 1 + e') \<le> of_int n"
    using assms(2) by linarith
  moreover have "pow2 53 \<le> pow2 (int (bit_length (nat M')) - 1 + e')"
    using h unfolding a by (simp add: pow2_le_iff)
  moreover have "(of_int n :: real) < 2 ^ 53" using assms(3) by (simp add: of_int_less_numeral_power_cancel_iff)
  ultimately show False by (simp add: pow2_53)
qed

lemma round_double_le:
  assumes "0 \<le> M" and "of_int M * pow2 e \<le> of_int n" and "n < 2 ^ 53"
  shows "\<exists>M' e'. round_double M e = Dbl M' e' \<and> 0 \<le> M' \<and> of_int M' * pow2 e' \<le> of_int n"
proof -
  define s where "s = max (int (bit_length (nat \<bar>M\<bar>)) - 53) (- 1074 - e)"
  define M' where "M' = (if s \<le> 0 then M else py_round (of_int M / 2 ^ nat s))"
  define e' where "e' = (if s \<le> 0 then e else e + s)"
  have rd: "round_double M e =
      (if M' \<noteq> 0 \<and> 1024 < int (bit_length (nat \<bar>M'\<bar>)) + e' then Inf_float (M < 0)
       else Dbl M' e')"
    unfolding M'_def e'_def s_def by (rule round_double_unfold)
  have nonneg: "0 \<le> M'"
  proof (cases "s \<le> 0")
    case True
    then show ?thesis using assms(1) by (simp add: M'_def)
  next
    case False
    have "(of_int 0 :: real) \<le> of_int M / 2 ^ nat s" using assms(1) by simp
    then have "0 \<le> py_round (of_int M / 2 ^ nat s)" by (rule py_round_ge_int)
    then show ?thesis using False by (simp add: M'_def)
  qed
  have bound: "of_int M' * pow2 e' \<le> of_int n"
  proof (cases "s \<le> 0")
    case True
    then show ?thesis using assms(2) by (simp add: M'_def e'_def)
  next
    case False
    then have "0 < s" by simp
    from grid_le [OF assms(1) this s_def assms(2,3)] show ?thesis
      using False by (simp add: M'_def e'_def)
  qed
  from finite_of_bound [OF nonneg bound assms(3)]
  have "round_double M e = Dbl M' e'" unfolding rd by simp
  then show ?thesis using nonneg bound by blast
qed

lemma round_double_ge:
  assumes "0 \<le> n" and "n < 2 ^ 53" and "of_int n \<le> of_int M * pow2 e"
    and "round_double M e = Dbl M' e'"
  shows "of_int n \<le> of_int M' * pow2 e'"
proof -
  define s where "s = max (int (bit_length (nat \<bar>M\<bar>)) - 53) (- 1074 - e)"
  have "(0::real) \<le> of_int M * pow2 e" using assms(1,3) by simp
  then have M0: "0 \<le> M" using pow2_pos [of e] by (simp add: zero_le_mult_iff)
  define M2 where "M2 = (if s \<le> 0 then M else py_round (of_int M / 2 ^ nat s))"
  define e2 where "e2 = (if s \<le> 0 then e else e + s)"
  have "round_double M e =
      (if M2 \<noteq> 0 \<and> 1024 < int (bit_length (nat \<bar>M2\<bar>)) + e2 then Inf_float (M < 0)
       else Dbl M2 e2)"
    unfolding M2_def e2_def s_def by (rule round_double_unfold)
  then have "M' = M2 \<and> e' = e2" using assms(4) by (simp split: if_splits)
  then have rd: "M' = (if s \<le> 0 then M else py_round (of_int M / 2 ^ nat s))"
           "e' = (if s \<le> 0 then e else e + s)"
    by (simp_all add: M2_def e2_def)
  show ?thesis
  proof (cases "s \<le> 0")
    case True
    then show ?thesis using assms(3) rd by simp
  next
    case False
    then have sp: "0 < s" by simp
    have ps: "(2::real) ^ nat s = pow2 s" using sp by (simp add: pow2_def)
    have M': "M' = py_round (of_int M / 2 ^ nat s)" and e': "e' = e + s"
      using rd False by simp_all
    show ?thesis
    proof (cases "e + s \<le> 0")
      case True
      define K where "K = n * 2 ^ nat (- (e + s))"
      have K: "of_int K * pow2 (e + s) = of_int n"
        using True by (simp add: K_def pow2_def)
      have "of_int M / 2 ^ nat s * pow2 (e + s) = of_int M * pow2 e"
        unfolding ps by (simp add: pow2_add)
      then have "of_int K * pow2 (e + s) \<le> of_int M / 2 ^ nat s * pow2 (e + s)"
        using assms(3) K by simp
      then have "(of_int K :: real) \<le> of_int M / 2 ^ nat s"
        using pow2_pos [of "e + s"] by (simp only: mult_le_cancel_right_pos)
      then have "K \<le> M'" unfolding M' by (rule py_round_ge_int)
      then have "of_int K * pow2 (e + s) \<le> of_int M' * pow2 (e + s)"
        using pow2_pos [of "e + s"] by (simp only: mult_le_cancel_right_pos of_int_le_iff)
      then show ?thesis using K unfolding e' by simp
    next
      case False
      then have sb: "s = int (bit_length (nat \<bar>M\<bar>)) - 53" unfolding s_def by linarith
      then have "0 < bit_length (nat \<bar>M\<bar>)" using sp by linarith
      then have "M \<noteq> 0" by (cases "M = 0") simp_all
      then have Mp: "0 < M" using M0 by simp
      then have a: "\<bar>M\<bar> = M" by simp
      have "pow2 (int (bit_length (nat M)) - 1) \<le> of_int M" using Mp by (rule bit_length_pow2)
      then have "pow2 (52 + s) \<le> of_int M" unfolding sb a by (simp add: algebra_simps)
      then have "pow2 52 * pow2 s \<le> of_int M" by (simp add: pow2_add)
      then have "pow2 52 \<le> of_int M / pow2 s"
        using pow2_pos [of s] by (simp add: pos_le_divide_eq)
      moreover have "pow2 52 = of_int (2 ^ 52)" using pow2_nat [of 52] by simp
      ultimately have "(of_int (2 ^ 52) :: real) \<le> of_int M / 2 ^ nat s" unfolding ps by simp
      then have m: "2 ^ 52 \<le> M'" unfolding M' by (rule py_round_ge_int)
      have "pow2 1 \<le> pow2 (e + s)" using False by (simp add: pow2_le_iff)
      then have p: "2 \<le> pow2 (e + s)" by (simp add: pow2_def)
      have "(2::real) ^ 52 \<le> of_int M'" using m by (simp add: numeral_power_le_of_int_cancel_iff)
      then have "(2::real) ^ 52 * 2 \<le> of_int M' * pow2 (e + s)"
        using p by (intro mult_mono) simp_all
      moreover have "(of_int n :: real) < 2 ^ 53"
        using assms(2) by (simp add: of_int_less_numeral_power_cancel_iff)
      ultimately show ?thesis unfolding e' by simp
    qed
  qed
qed

text \<open>An integer below \<open>2 ^ 53\<close> is a double.\<close>

lemma bit_length_53:
  assumes "0 \<le> n" and "n < 2 ^ 53"
  shows "bit_length (nat n) \<le> 53"
proof (cases "n = 0")
  case True
  then show ?thesis by simp
next
  case False
  then have p: "0 < nat n" using assms(1) by simp
  then obtain k where k: "bit_length (nat n) = Suc k" by (simp add: bit_length_rec)
  from bit_length_bounds [OF p] have "2 ^ k \<le> nat n" unfolding k by simp
  moreover have "nat n < 2 ^ 53" using assms by (simp add: nat_less_iff)
  ultimately have "(2::nat) ^ k < 2 ^ 53" by linarith
  then have "k < 53" by (simp only: power_strict_increasing_iff)
  then show ?thesis unfolding k by simp
qed

lemma int_times_float_exact:
  assumes "0 \<le> n" and "n < 2 ^ 53"
  shows "int_times_float n x = Inr (float_mul (Dbl n 0) x)"
proof -
  have b: "bit_length (nat n) \<le> 53" using assms by (rule bit_length_53)
  have a: "\<bar>n\<bar> = n" using assms(1) by simp
  have "round_double n 0 = Dbl n 0"
    using b by (simp add: round_double_unfold a)
  then show ?thesis by (simp add: int_times_float_def)
qed

lemma product_below:
  assumes "0 \<le> n" and "n < 2 ^ 53" and "0 \<le> of_int m * pow2 e" and "of_int m * pow2 e \<le> 1"
  shows "\<exists>M' e'. int_times_float n (Dbl m e) = Inr (Dbl M' e')
           \<and> 0 \<le> py_round (of_int M' * pow2 e') \<and> py_round (of_int M' * pow2 e') \<le> n"
proof -
  have m0: "0 \<le> m" using assms(3) pow2_pos [of e] by (simp add: zero_le_mult_iff)
  then have M0: "0 \<le> n * m" using assms(1) by simp
  have "of_int n * (of_int m * pow2 e) \<le> of_int n * 1"
    using assms(1,4) by (intro mult_left_mono) simp_all
  then have le: "of_int (n * m) * pow2 (0 + e) \<le> of_int n" by (simp add: mult.assoc)
  from round_double_le [OF M0 le assms(2)]
  obtain M' e' where r: "round_double (n * m) (0 + e) = Dbl M' e'" and p: "0 \<le> M'"
    and b: "of_int M' * pow2 e' \<le> of_int n"
    by blast
  have "(of_int 0 :: real) \<le> of_int M' * pow2 e'" using p by (simp add: zero_le_mult_iff)
  then have "0 \<le> py_round (of_int M' * pow2 e')" by (rule py_round_ge_int)
  moreover have "py_round (of_int M' * pow2 e') \<le> n" using b by (rule py_round_le_int)
  ultimately show ?thesis using r by (simp add: int_times_float_exact [OF assms(1,2)])
qed

lemma product_above:
  assumes "0 \<le> n" and "n < 2 ^ 53" and "1 \<le> of_int m * pow2 e"
  shows "int_times_float n (Dbl m e) = Inr (Inf_float False)
       \<or> (\<exists>M' e'. int_times_float n (Dbl m e) = Inr (Dbl M' e')
             \<and> n \<le> py_round (of_int M' * pow2 e'))"
proof -
  have "(0::real) < of_int m * pow2 e" using assms(3) by linarith
  then have m0: "0 < m" using pow2_pos [of e] by (simp add: zero_less_mult_iff)
  then have M0: "\<not> n * m < 0" using assms(1) by (simp add: mult_less_0_iff)
  have "of_int n * 1 \<le> of_int n * (of_int m * pow2 e)"
    using assms(1,3) by (intro mult_left_mono) simp_all
  then have ge: "of_int n \<le> of_int (n * m) * pow2 (0 + e)" by (simp add: mult.assoc)
  show ?thesis
  proof (cases "round_double (n * m) (0 + e)")
    case (Dbl M' e')
    from round_double_ge [OF assms(1,2) ge Dbl]
    have "n \<le> py_round (of_int M' * pow2 e')" by (rule py_round_ge_int)
    then show ?thesis using Dbl by (simp add: int_times_float_exact [OF assms(1,2)])
  next
    case (Inf_float sg)
    then have "sg = (n * m < 0)"
      unfolding round_double_unfold by (simp split: if_splits)
    then show ?thesis using Inf_float M0 by (simp add: int_times_float_exact [OF assms(1,2)])
  next
    case NaN_float
    then show ?thesis unfolding round_double_unfold by (simp split: if_splits)
  qed
qed

subsection \<open>The split\<close>

lemma ts_split_no_vis:
  "ts_split S t False =
     (case int_times_float (int (length (s_rows S))) t of
        Inl e \<Rightarrow> (Inl e, [])
      | Inr p \<Rightarrow>
          (case round_float p of
             Inl e \<Rightarrow> (Inl e, [])
           | Inr c \<Rightarrow> (Inr (iloc_to S c, iloc_from S c), [])))"
  by (simp add: ts_split_def Let_def seq_def lift_def raise_def ret_def split: sum.splits)

lemma fst_ts_split:
  "fst (ts_split S t sv) =
     (case int_times_float (int (length (s_rows S))) t of
        Inl e \<Rightarrow> Inl e
      | Inr p \<Rightarrow>
          (case round_float p of
             Inl e \<Rightarrow> Inl e
           | Inr c \<Rightarrow>
               (case (if sv then last_index (iloc_to S c) else Inr 0) of
                  Inl e \<Rightarrow> Inl e
                | Inr _ \<Rightarrow> Inr (iloc_to S c, iloc_from S c))))"
  by (simp add: ts_split_def Let_def fst_seq split: sum.splits)

lemma fits_ts_split: "fits (snd (ts_split S t sv)) = []"
  by (simp add: ts_split_def Let_def fits_seq fst_seq split: sum.splits)

text \<open>
  C2. For a non-empty series \<open>S\<close> (of fewer than \<open>2 ^ 53\<close> rows, as every series in memory
  is) and a threshold strictly between 0 and 1, \<open>ts_split(S, t)\<close> returns the pair (train,
  test) cut at \<open>round(len(S) * t)\<close>, the product being the float product: the cut is an index
  between 0 and \<open>len(S)\<close>, train is \<open>S[0:cut]\<close>, test is \<open>S[cut:]\<close>, their lengths add up to
  \<open>len(S)\<close>, and train followed by test is \<open>S\<close>, in order.
\<close>

theorem ts_split_round_trip:
  assumes "s_rows S \<noteq> []" and "length (s_rows S) < 2 ^ 53"
    and "0 < of_int m * pow2 e" and "of_int m * pow2 e < 1"
  shows "\<exists>p cut. int_times_float (int (length (s_rows S))) (Dbl m e) = Inr p
           \<and> round_float p = Inr (int cut)
           \<and> cut \<le> length (s_rows S)
           \<and> ts_split S (Dbl m e) False =
               (Inr (S\<lparr>s_rows := take cut (s_rows S)\<rparr>, S\<lparr>s_rows := drop cut (s_rows S)\<rparr>), [])
           \<and> length (take cut (s_rows S)) + length (drop cut (s_rows S)) = length (s_rows S)
           \<and> take cut (s_rows S) @ drop cut (s_rows S) = s_rows S"
proof -
  let ?n = "length (s_rows S)"
  have n: "(0::int) \<le> int ?n" "int ?n < 2 ^ 53"
    using assms(2) by (simp_all add: of_nat_less_numeral_power_cancel_iff)
  have t: "0 \<le> of_int m * pow2 e" "of_int m * pow2 e \<le> 1" using assms(3,4) by simp_all
  from product_below [OF n t]
  obtain M' e' where p: "int_times_float (int ?n) (Dbl m e) = Inr (Dbl M' e')"
    and c0: "0 \<le> py_round (of_int M' * pow2 e')"
    and c1: "py_round (of_int M' * pow2 e') \<le> int ?n"
    by blast
  let ?c = "py_round (of_int M' * pow2 e')"
  have le: "nat ?c \<le> ?n" using c1 by linarith
  have sb: "slice_bound ?n ?c = nat ?c" using c0 le by (simp add: slice_bound_def)
  have "ts_split S (Dbl m e) False =
      (Inr (S\<lparr>s_rows := take (nat ?c) (s_rows S)\<rparr>, S\<lparr>s_rows := drop (nat ?c) (s_rows S)\<rparr>), [])"
    by (simp add: ts_split_no_vis p iloc_to_def iloc_from_def sb)
  moreover have "round_float (Dbl M' e') = Inr (int (nat ?c))" using c0 by simp
  ultimately show ?thesis using le p
    by (intro exI [of _ "Dbl M' e'"] exI [of _ "nat ?c"]) simp
qed

lemma default_product: "int_times_float 30 default_threshold = Inr (Dbl 7177611906121728 (- 48))"
  by (simp add: int_times_float_def default_threshold_def round_double_def py_round_def
        bit_length_rec)

theorem ts_split_round_trip_witness:
  "s_rows long_series \<noteq> [] \<and> length (s_rows long_series) < 2 ^ 53
   \<and> (0::real) < of_int 7656119366529843 * pow2 (- 53)
   \<and> (of_int 7656119366529843 :: real) * pow2 (- 53) < 1
   \<and> ts_split long_series (Dbl 7656119366529843 (- 53)) False =
        (Inr (long_series\<lparr>s_rows := take 26 (s_rows long_series)\<rparr>,
              long_series\<lparr>s_rows := drop 26 (s_rows long_series)\<rparr>), [])"
proof -
  have l: "length (s_rows long_series) = 30" by (simp add: long_series_def)
  have h: "s_rows long_series \<noteq> []" "length (s_rows long_series) < 2 ^ 53"
    "(0::real) < of_int 7656119366529843 * pow2 (- 53)"
    "(of_int 7656119366529843 :: real) * pow2 (- 53) < 1"
    using l by (auto simp: pow2_def)
  obtain p cut where p: "int_times_float (int (length (s_rows long_series)))
        (Dbl 7656119366529843 (- 53)) = Inr p"
    and c: "round_float p = Inr (int cut)"
    and r: "ts_split long_series (Dbl 7656119366529843 (- 53)) False =
        (Inr (long_series\<lparr>s_rows := take cut (s_rows long_series)\<rparr>,
              long_series\<lparr>s_rows := drop cut (s_rows long_series)\<rparr>), [])"
    using ts_split_round_trip [OF h] by blast
  have "p = Dbl 7177611906121728 (- 48)"
    using p default_product unfolding l by (simp add: default_threshold_def)
  then have "int cut = 26" using c by (simp add: pow2_def py_round_def)
  then have "cut = 26" by simp
  then show ?thesis using r h by simp
qed

lemma round_double_zero: "\<exists>e'. round_double 0 e = Dbl 0 e'"
  by (simp add: round_double_unfold py_round_def)

lemma ts_split_float:
  assumes "length (s_rows S) < 2 ^ 53"
  shows "ts_split S t False =
     (case float_mul (Dbl (int (length (s_rows S))) 0) t of
        Dbl M' e' \<Rightarrow>
          (Inr (iloc_to S (py_round (of_int M' * pow2 e')),
                iloc_from S (py_round (of_int M' * pow2 e'))), [])
      | Inf_float sg \<Rightarrow> (Inl OverflowError, [])
      | NaN_float \<Rightarrow> (Inl ValueError, []))"
proof -
  have n: "(0::int) \<le> int (length (s_rows S))" "int (length (s_rows S)) < 2 ^ 53"
    using assms by (simp_all add: of_nat_less_numeral_power_cancel_iff)
  show ?thesis
    by (simp add: ts_split_no_vis int_times_float_exact [OF n] split: pyfloat.splits)
qed

text \<open>
  C4, as the program has it. \<open>ts_split\<close> checks neither the series nor the threshold. An
  empty series with any finite threshold is split into two empty series. A finite
  threshold of 1 or more gives the whole series and an empty rest, unless the float
  product \<open>len(S) * threshold\<close> is infinite: then \<open>round\<close> raises OverflowError. In general
  the call without visualisation raises only what \<open>round\<close> raises, OverflowError on an
  infinite product and ValueError on one that is not a number, and returns the pair cut at
  \<open>round(len(S) * threshold)\<close>, read as a slice bound, otherwise; the pair put together is
  the series.
\<close>

theorem ts_split_no_validation:
  assumes "length (s_rows S) < 2 ^ 53"
  shows "(s_rows S = [] \<longrightarrow> ts_split S (Dbl m e) False = (Inr (S, S), []))
       \<and> (1 \<le> of_int m * pow2 e \<longrightarrow>
            ts_split S (Dbl m e) False = (Inr (S, S\<lparr>s_rows := []\<rparr>), [])
          \<or> ts_split S (Dbl m e) False = (Inl OverflowError, []))
       \<and> ts_split S t False =
           (case float_mul (Dbl (int (length (s_rows S))) 0) t of
              Dbl M' e' \<Rightarrow>
                (Inr (iloc_to S (py_round (of_int M' * pow2 e')),
                      iloc_from S (py_round (of_int M' * pow2 e'))), [])
            | Inf_float sg \<Rightarrow> (Inl OverflowError, [])
            | NaN_float \<Rightarrow> (Inl ValueError, []))
       \<and> (\<forall>train test. fst (ts_split S t False) = Inr (train, test) \<longrightarrow>
             s_rows train @ s_rows test = s_rows S)"
proof (intro conjI impI allI)
  assume empty: "s_rows S = []"
  obtain e' where "round_double 0 e = Dbl 0 e'" using round_double_zero by blast
  then show "ts_split S (Dbl m e) False = (Inr (S, S), [])"
    using empty
    by (simp add: ts_split_float [OF assms] py_round_def iloc_to_def iloc_from_def
          slice_bound_def)
next
  assume big: "1 \<le> of_int m * pow2 e"
  let ?n = "length (s_rows S)"
  have n: "(0::int) \<le> int ?n" "int ?n < 2 ^ 53"
    using assms by (simp_all add: of_nat_less_numeral_power_cancel_iff)
  from product_above [OF n big]
  show "ts_split S (Dbl m e) False = (Inr (S, S\<lparr>s_rows := []\<rparr>), [])
          \<or> ts_split S (Dbl m e) False = (Inl OverflowError, [])"
  proof
    assume "int_times_float (int ?n) (Dbl m e) = Inr (Inf_float False)"
    then show ?thesis by (simp add: ts_split_no_vis)
  next
    assume "\<exists>M' e'. int_times_float (int ?n) (Dbl m e) = Inr (Dbl M' e')
             \<and> int ?n \<le> py_round (of_int M' * pow2 e')"
    then obtain M' e' where p: "int_times_float (int ?n) (Dbl m e) = Inr (Dbl M' e')"
      and c: "int ?n \<le> py_round (of_int M' * pow2 e')"
      by blast
    have "slice_bound ?n (py_round (of_int M' * pow2 e')) = ?n"
      using c by (simp add: slice_bound_def)
    then show ?thesis by (simp add: ts_split_no_vis p iloc_to_def iloc_from_def)
  qed
next
  show "ts_split S t False =
           (case float_mul (Dbl (int (length (s_rows S))) 0) t of
              Dbl M' e' \<Rightarrow>
                (Inr (iloc_to S (py_round (of_int M' * pow2 e')),
                      iloc_from S (py_round (of_int M' * pow2 e'))), [])
            | Inf_float sg \<Rightarrow> (Inl OverflowError, [])
            | NaN_float \<Rightarrow> (Inl ValueError, []))"
    using assms by (rule ts_split_float)
next
  fix train test
  assume "fst (ts_split S t False) = Inr (train, test)"
  then show "s_rows train @ s_rows test = s_rows S"
    by (auto simp: ts_split_no_vis iloc_to_def iloc_from_def split: sum.splits)
qed

theorem ts_split_no_validation_witness:
  "length (s_rows \<lparr>s_name = NpInt 60601, s_rows = []\<rparr>) < 2 ^ 53
   \<and> s_rows \<lparr>s_name = NpInt 60601, s_rows = []\<rparr> = []
   \<and> (1::real) \<le> of_int 3 * pow2 (- 1)
   \<and> ts_split \<lparr>s_name = NpInt 60601, s_rows = []\<rparr> (Dbl 3 (- 1)) False =
        (Inr (\<lparr>s_name = NpInt 60601, s_rows = []\<rparr>, \<lparr>s_name = NpInt 60601, s_rows = []\<rparr>), [])
   \<and> length (s_rows \<lparr>s_name = NpInt 60601, s_rows = [(1, 100), (2, 110)]\<rparr>) < 2 ^ 53
   \<and> (1::real) \<le> of_int 1 * pow2 1023
   \<and> ts_split \<lparr>s_name = NpInt 60601, s_rows = [(1, 100), (2, 110)]\<rparr> (Dbl 1 1023) False =
        (Inl OverflowError, [])"
proof -
  let ?E = "\<lparr>s_name = NpInt 60601, s_rows = []\<rparr>"
  let ?S = "\<lparr>s_name = NpInt 60601, s_rows = [(1, 100), (2, 110)]\<rparr>"
  have h: "length (s_rows ?E) < 2 ^ 53" "s_rows ?E = []" "(1::real) \<le> of_int 3 * pow2 (- 1)"
    by (simp_all add: pow2_def)
  have k: "length (s_rows ?S) < 2 ^ 53" "(1::real) \<le> of_int 1 * pow2 1023"
    by (simp_all add: pow2_def)
  have a: "ts_split ?E (Dbl 3 (- 1)) False = (Inr (?E, ?E), [])"
    using ts_split_no_validation [OF h(1), of 3 "- 1"] h(2) by blast
  have "float_mul (Dbl (int (length (s_rows ?S))) 0) (Dbl 1 1023) = Inf_float False"
    by (simp add: round_double_def bit_length_rec)
  then have b: "ts_split ?S (Dbl 1 1023) False = (Inl OverflowError, [])"
    using ts_split_no_validation [OF k(1), of 1 1023 "Dbl 1 1023"] by simp
  show ?thesis using h k a b by simp
qed

text \<open>
  C4 as stated fails: the empty series with the default threshold is split into two empty
  series, and the threshold 1.5 on a series of two rows gives the whole series and an
  empty rest. Neither call raises.
\<close>

theorem ts_split_fails_counterexample:
  "fst (ts_split \<lparr>s_name = NpInt 60601, s_rows = []\<rparr> default_threshold False) =
     Inr (\<lparr>s_name = NpInt 60601, s_rows = []\<rparr>, \<lparr>s_name = NpInt 60601, s_rows = []\<rparr>)
   \<and> fst (ts_split \<lparr>s_name = NpInt 60601, s_rows = [(1, 100), (2, 110)]\<rparr> (Dbl 3 (- 1)) False) =
     Inr (\<lparr>s_name = NpInt 60601, s_rows = [(1, 100), (2, 110)]\<rparr>,
          \<lparr>s_name = NpInt 60601, s_rows = []\<rparr>)"
  by (simp add: ts_split_no_vis int_times_float_def default_threshold_def round_double_def
        bit_length_rec iloc_to_def iloc_from_def py_round_def pow2_def slice_bound_def)

subsection \<open>The call of auto\_arima\_model inside create\_best\_model\<close>

lemma auto_arima_model_rejects:
  "auto_arima_model lib [x]
     [(''m'', a1), (''start_p'', a2), (''max_p'', a3), (''start_q'', a4), (''max_q'', a5),
      (''start_P'', a6), (''start_Q'', a7), (''max_P'', a8), (''max_Q'', a9),
      (''n_d'', b1), (''n_D'', b2), (''error_action'', b3)] =
   Inl (TypeError (Unexpected_keyword ''n_d''))"
  by (simp add: auto_arima_model_def bind_args_def auto_arima_model_sig_def)

lemma create_best_model_rejected:
  "create_best_model lib pos kws =
     (Inl (case bind_args create_best_model_sig pos kws of
             Inl te \<Rightarrow> TypeError te
           | Inr env \<Rightarrow>
               (case ndiffs lib (arg env ''timeseries_dataset'') of
                  Inl e \<Rightarrow> e
                | Inr n_d \<Rightarrow>
                    (case nsdiffs lib (arg env ''timeseries_dataset'') (arg env ''m'') of
                       Inl e \<Rightarrow> e
                     | Inr n_D \<Rightarrow> TypeError (Unexpected_keyword ''n_d'')))), [])"
  by (simp add: create_best_model_def create_best_model_calling_def selection_call_def
        auto_arima_model_rejects raise_def split: sum.splits)

lemma bind_workflow_call:
  "bind_args create_best_model_sig [] [(''timeseries_dataset'', x), (''m'', y)] =
     Inr [(''timeseries_dataset'', x), (''m'', y),
          (''start_p'', PInt 0), (''max_p'', PInt 5),
          (''start_q'', PInt 0), (''max_q'', PInt 5),
          (''start_P'', PInt 0), (''start_Q'', PInt 0),
          (''max_P'', PInt 5), (''max_Q'', PInt 5), (''show_vis'', PBool False)]"
  by (simp add: bind_args_def create_best_model_sig_def)

text \<open>
  C1, as the program has it. Whatever the dataset and the arguments, \<open>create_best_model\<close>
  raises and has fitted no model by then, but the exception is not always a TypeError:
  when its own arguments bind, the differencing tests of lines 129 and 130 run first, and
  what one of them raises is what \<open>create_best_model\<close> raises; only when both return is
  the exception the TypeError of the call of \<open>auto_arima_model\<close>, which has no parameter
  \<open>n_d\<close> (the first of the three keywords it does not know). So \<open>ts_modeling_workflow\<close>
  ends in an exception for every input, at the column lookup, in the split, or in
  \<open>create_best_model\<close>, with no model fitted; forecast, ROI and packaging are never
  reached, and \<open>make_dict\<close> never returns a result either.
\<close>

theorem create_best_model_never_returns:
  "create_best_model lib pos kws =
     (Inl (case bind_args create_best_model_sig pos kws of
             Inl te \<Rightarrow> TypeError te
           | Inr env \<Rightarrow>
               (case ndiffs lib (arg env ''timeseries_dataset'') of
                  Inl e \<Rightarrow> e
                | Inr n_d \<Rightarrow>
                    (case nsdiffs lib (arg env ''timeseries_dataset'') (arg env ''m'') of
                       Inl e \<Rightarrow> e
                     | Inr n_D \<Rightarrow> TypeError (Unexpected_keyword ''n_d'')))), [])
   \<and> fst (ts_modeling_workflow lib df z thr m np nf sv) =
       (case column df z of
          Inl e \<Rightarrow> Inl e
        | Inr zv \<Rightarrow>
            (case fst (ts_split zv thr sv) of
               Inl e \<Rightarrow> Inl e
             | Inr (train, test) \<Rightarrow>
                 (case ndiffs lib (PSeries train) of
                    Inl e \<Rightarrow> Inl e
                  | Inr n_d \<Rightarrow>
                      (case nsdiffs lib (PSeries train) (PInt m) of
                         Inl e \<Rightarrow> Inl e
                       | Inr n_D \<Rightarrow> Inl (TypeError (Unexpected_keyword ''n_d''))))))
   \<and> fits (snd (ts_modeling_workflow lib df z thr m np nf sv)) = []
   \<and> (\<exists>e. fst (make_dict lib df z m sv) = Inl e)"
proof -
  have w: "fst (ts_modeling_workflow lib df z thr m np nf sv) =
       (case column df z of
          Inl e \<Rightarrow> Inl e
        | Inr zv \<Rightarrow>
            (case fst (ts_split zv thr sv) of
               Inl e \<Rightarrow> Inl e
             | Inr (train, test) \<Rightarrow>
                 (case ndiffs lib (PSeries train) of
                    Inl e \<Rightarrow> Inl e
                  | Inr n_d \<Rightarrow>
                      (case nsdiffs lib (PSeries train) (PInt m) of
                         Inl e \<Rightarrow> Inl e
                       | Inr n_D \<Rightarrow> Inl (TypeError (Unexpected_keyword ''n_d''))))))
     \<and> fits (snd (ts_modeling_workflow lib df z thr m np nf sv)) = []" for thr np nf
    by (simp add: ts_modeling_workflow_def ts_modeling_workflow_calling_def fst_seq snd_seq
          create_best_model_def [symmetric] create_best_model_rejected bind_workflow_call
          fits_append fits_ts_split arg_def
        split: sum.splits prod.splits)
  have "\<exists>e. fst (ts_modeling_workflow lib df z default_threshold m 5 2 sv) = Inl e"
    by (simp add: w split: sum.splits prod.splits)
  then have d: "\<exists>e. fst (make_dict lib df z m sv) = Inl e"
    by (auto simp: make_dict_def make_dict_calling_def fst_seq
          ts_modeling_workflow_def [symmetric])
  show ?thesis using w d by (simp add: create_best_model_rejected)
qed

text \<open>
  C1 as stated fails: with the season \<open>m = 1\<close> the seasonal differencing test raises a
  ValueError, and on an empty series the differencing test does; \<open>create_best_model\<close>
  raises that ValueError, not a TypeError.
\<close>

theorem create_best_model_type_error_counterexample:
  "fst (create_best_model example_library [PSeries example_series] [(''m'', PInt 1)]) =
     Inl ValueError
   \<and> fst (create_best_model example_library
            [PSeries \<lparr>s_name = NpInt 60601, s_rows = []\<rparr>] []) = Inl ValueError"
  by (simp add: create_best_model_rejected bind_args_def create_best_model_sig_def arg_def
        example_library_def example_series_def)

subsection \<open>Return on investment\<close>

text \<open>
  C3, as the program has it. For a forecast frame whose first Forecast value is not zero,
  every cell of every column becomes \<open>(value - c) / c * 100\<close> where \<open>c\<close> is that one
  number, the first value of the column Forecast: the first entry of the ROI is 0 in the
  column Forecast, and in the columns Lower CI and Upper CI it is the distance of the
  first bound from the first forecast, in percent of the forecast.
\<close>

theorem roi_first_row:
  assumes "forecast_full = (t, lo, hi, mean) # rest" and "mean \<noteq> 0"
  shows "investment_cost forecast_full = Inr mean
    \<and> roi_df forecast_full mean =
        map (\<lambda>(t', lo', hi', mean').
               (t', Finite ((lo' - mean) / mean * 100), Finite ((hi' - mean) / mean * 100),
                Finite ((mean' - mean) / mean * 100))) forecast_full
    \<and> (\<exists>rest'. roi_df forecast_full mean =
          (t, Finite ((lo - mean) / mean * 100), Finite ((hi - mean) / mean * 100), Finite 0)
            # rest')"
  using assms by (simp add: investment_cost_def roi_df_def roi_value_def)

theorem roi_first_row_witness:
  "[(25, 50, 150, 100), (26, 60, 160, 110)] = (25, 50, 150, 100) # [(26::int, 60::real, 160::real, 110::real)]
   \<and> (100::real) \<noteq> 0
   \<and> investment_cost [(25, 50, 150, 100), (26, 60, 160, 110)] = Inr 100
   \<and> (\<exists>rest'. roi_df [(25, 50, 150, 100), (26, 60, 160, 110)] 100 =
         (25, Finite (- 50), Finite 50, Finite 0) # rest')"
proof -
  have h: "[(25, 50, 150, 100), (26, 60, 160, 110)] =
      (25, 50, 150, 100) # [(26::int, 60::real, 160::real, 110::real)]" "(100::real) \<noteq> 0"
    by simp_all
  show ?thesis using h roi_first_row [OF h] by simp
qed

text \<open>
  C3 as stated fails: with a first forecast of 100 between the bounds 50 and 150, the
  first entry of the ROI is -50 in the column Lower CI and 50 in the column Upper CI.
\<close>

theorem roi_first_entry_counterexample:
  "investment_cost [(25, 50, 150, 100), (26, 60, 160, 110)] = Inr 100
   \<and> roi_df [(25, 50, 150, 100), (26, 60, 160, 110)] 100 =
       [(25, Finite (- 50), Finite 50, Finite 0), (26, Finite (- 40), Finite 60, Finite 10)]"
  by (simp add: investment_cost_def roi_df_def roi_value_def)

subsection \<open>The forecast frame\<close>

lemma map_add_upto: "map (\<lambda>k. t + k) [i..j] = [t + i..t + j]"
proof (induction i j rule: upto.induct)
  case (1 i j)
  show ?case
  proof (cases "i \<le> j")
    case True
    then have "[i..j] = i # [i + 1..j]" "[t + i..t + j] = (t + i) # [t + i + 1..t + j]"
      by (simp_all add: upto_rec1)
    then show ?thesis using 1 True by (simp add: add.assoc)
  next
    case False
    then show ?thesis by simp
  qed
qed

lemma frame_of_forecast:
  "map2 (\<lambda>(t, lo, hi) (t', mean). (t, lo, hi, mean)) (conf_int xs) (predicted_mean xs) = xs"
  by (induction xs) (auto simp: conf_int_def predicted_mean_def)

lemma get_forecast_rows:
  assumes "endog (fm_args model) = PSeries s" and "last_index s = Inr t0"
  shows "get_forecast lib model h = Inr (map (\<lambda>k. (t0 + k, predict lib model k)) [1..h])"
  using assms by (simp add: get_forecast_def)

lemma strict_upto: "sorted_wrt (<) [i..j::int]"
  by (simp add: strict_sorted_iff)

text \<open>
  C5. For a model fitted on a series with a last timestamp \<open>t0\<close>, \<open>forecast_and_ci\<close>
  returns a frame of exactly as many rows as the test data has when test data is given,
  and of \<open>12 * n_yrs_future\<close> rows when it is not (for a number of years that is not
  negative); the timestamps of the rows are \<open>t0 + 1\<close>, \<open>t0 + 2\<close>, ... without a gap,
  strictly increasing.
\<close>

theorem forecast_and_ci_horizon:
  assumes "endog (fm_args model) = PSeries s" and "last_index s = Inr t0" and "0 \<le> k"
  shows "(\<exists>F. forecast_and_ci lib model (Some td) n = Inr F
            \<and> length F = length (s_rows td)
            \<and> map fst F = [t0 + 1..t0 + int (length (s_rows td))]
            \<and> sorted_wrt (<) (map fst F))
       \<and> (\<exists>F. forecast_and_ci lib model None (Some k) = Inr F
            \<and> int (length F) = 12 * k
            \<and> map fst F = [t0 + 1..t0 + 12 * k]
            \<and> sorted_wrt (<) (map fst F))"
proof -
  have a: "forecast_and_ci lib model (Some td) n =
      Inr (map (\<lambda>k. (t0 + k, predict lib model k)) [1..int (length (s_rows td))])"
    by (simp add: forecast_and_ci_def get_forecast_rows [OF assms(1,2)] frame_of_forecast)
  have b: "forecast_and_ci lib model None (Some k) =
      Inr (map (\<lambda>k. (t0 + k, predict lib model k)) [1..12 * k])"
    by (simp add: forecast_and_ci_def get_forecast_rows [OF assms(1,2)] frame_of_forecast)
  have m: "map fst (map (\<lambda>k. (t0 + k, predict lib model k)) [1..h]) = [t0 + 1..t0 + h]" for h
    by (simp add: comp_def map_add_upto)
  show ?thesis using assms(3) unfolding a b by (simp add: m strict_upto del: map_map)
qed

theorem forecast_and_ci_horizon_witness:
  "endog (fm_args example_model) = PSeries example_series
   \<and> last_index example_series = Inr 4
   \<and> (0::int) \<le> 2
   \<and> (\<exists>F. forecast_and_ci example_library example_model (Some example_series) None = Inr F
         \<and> length F = length (s_rows example_series)
         \<and> map fst F = [4 + 1..4 + int (length (s_rows example_series))]
         \<and> sorted_wrt (<) (map fst F))
   \<and> (\<exists>F. forecast_and_ci example_library example_model None (Some 2) = Inr F
         \<and> int (length F) = 12 * 2
         \<and> map fst F = [4 + 1..4 + 12 * 2]
         \<and> sorted_wrt (<) (map fst F))"
proof -
  have h: "endog (fm_args example_model) = PSeries example_series"
    "last_index example_series = Inr 4" "(0::int) \<le> 2"
    by (simp_all add: example_model_def example_series_def last_index_def)
  show ?thesis
    using h forecast_and_ci_horizon [OF h, of example_library example_series None] by blast
qed

subsection \<open>The order search\<close>

lemma grid_search_total: "\<exists>r. grid_search ic True cs best = Inr r"
  by (induction cs arbitrary: best) (auto split: sum.splits)

lemma grid_search_skips:
  "grid_search ic True cs best = grid_search ic True (filter (\<lambda>c. \<not> isl (ic c)) cs) best"
  by (induction cs arbitrary: best) (auto split: sum.splits)

lemma grid_search_drop:
  "ic c = Inl e \<Longrightarrow>
   grid_search ic True (cs1 @ c # cs2) best = grid_search ic True (cs1 @ cs2) best"
  by (induction cs1 arbitrary: best) (auto split: sum.splits)

lemma grid_search_some:
  "grid_search ic skip cs (Some b) = Inr r \<Longrightarrow> r \<noteq> None"
  by (induction cs arbitrary: b) (auto split: sum.splits if_splits prod.splits)

lemma grid_search_finds:
  "c \<in> set cs \<Longrightarrow> ic c = Inr v \<Longrightarrow> grid_search ic skip cs best = Inr r \<Longrightarrow> r \<noteq> None"
proof (induction cs arbitrary: best)
  case Nil
  then show ?case by simp
next
  case (Cons a cs)
  show ?case
  proof (cases "a = c")
    case True
    then show ?thesis using Cons.prems grid_search_some [of ic skip cs _ r]
      by (auto split: option.splits prod.splits if_splits)
  next
    case False
    then show ?thesis using Cons
      by (auto split: sum.splits if_splits)
  qed
qed

lemma grid_search_minimum:
  "grid_search ic skip cs best = Inr (Some (c, v)) \<Longrightarrow>
     ((c \<in> set cs \<and> ic c = Inr v) \<or> best = Some (c, v))
     \<and> (\<forall>c' \<in> set cs. \<forall>v'. ic c' = Inr v' \<longrightarrow> v \<le> v')
     \<and> (case best of None \<Rightarrow> True | Some b0 \<Rightarrow> v \<le> snd b0)"
proof (induction cs arbitrary: best)
  case Nil
  then show ?case by simp
next
  case (Cons a cs)
  show ?case
  proof (cases "ic a")
    case (Inl e)
    then have "grid_search ic skip cs best = Inr (Some (c, v))"
      using Cons.prems by (simp split: if_splits)
    from Cons.IH [OF this] show ?thesis using Inl by auto
  next
    case (Inr w)
    define b where "b = (case best of None \<Rightarrow> (a, w)
              | Some (c', v') \<Rightarrow> if w < v' then (a, w) else (c', v'))"
    have run: "grid_search ic skip cs (Some b) = Inr (Some (c, v))"
      using Cons.prems Inr by (cases best) (auto simp: b_def split: if_splits)
    have bw: "snd b \<le> w"
      by (simp add: b_def split: option.splits prod.splits)
    have bb: "case best of None \<Rightarrow> True | Some b0 \<Rightarrow> snd b \<le> snd b0"
      by (simp add: b_def split: option.splits prod.splits)
    have bo: "b = (a, w) \<or> best = Some b"
      by (simp add: b_def split: option.splits prod.splits)
    from Cons.IH [OF run]
    have i1: "(c \<in> set cs \<and> ic c = Inr v) \<or> b = (c, v)"
      and i2: "\<forall>c' \<in> set cs. \<forall>v'. ic c' = Inr v' \<longrightarrow> v \<le> v'"
      and i3: "v \<le> snd b"
      by simp_all
    have c1: "(c \<in> set (a # cs) \<and> ic c = Inr v) \<or> best = Some (c, v)"
      using i1 bo Inr by auto
    have c2: "\<forall>c' \<in> set (a # cs). \<forall>v'. ic c' = Inr v' \<longrightarrow> v \<le> v'"
      using i2 i3 bw Inr by auto
    have c3: "case best of None \<Rightarrow> True | Some b0 \<Rightarrow> v \<le> snd b0"
      using bb i3 by (cases best) auto
    show ?thesis using c1 c2 c3 by blast
  qed
qed

lemma pmd_auto_arima_ints:
  "those (map as_int bounds) =
     Some [m, start_p, max_p, start_q, max_q, start_P, max_P, start_Q, max_Q, d, D] \<Longrightarrow>
   pmd_auto_arima lib y bounds (PStr ''ignore'') =
     (case grid_search (\<lambda>(p, q, P, Q). information_criterion lib y (p, d, q) (P, D, Q, m)) True
             (candidates start_p max_p start_q max_q start_P max_P start_Q max_Q) None of
        Inl e \<Rightarrow> Inl e
      | Inr None \<Rightarrow> Inl (LibraryError ''auto_arima: no model could be fitted'')
      | Inr (Some ((p, q, P, Q), v)) \<Rightarrow>
          Inr \<lparr>am_order = (p, d, q), am_seasonal_order = (P, D, Q, m)\<rparr>)"
  by (simp add: pmd_auto_arima_def)

lemma auto_arima_model_search:
  assumes "bind_args auto_arima_model_sig pos kws = Inr env"
    and "as_int (arg env ''m'') = Some m"
    and "as_int (arg env ''start_p'') = Some start_p" and "as_int (arg env ''max_p'') = Some max_p"
    and "as_int (arg env ''start_q'') = Some start_q" and "as_int (arg env ''max_q'') = Some max_q"
    and "as_int (arg env ''start_P'') = Some start_P" and "as_int (arg env ''max_P'') = Some max_P"
    and "as_int (arg env ''start_Q'') = Some start_Q" and "as_int (arg env ''max_Q'') = Some max_Q"
    and "ndiffs lib (arg env ''timeseries_dataset'') = Inr n_d"
    and "nsdiffs lib (arg env ''timeseries_dataset'') (arg env ''m'') = Inr n_D"
  shows "auto_arima_model lib pos kws =
     (case grid_search
             (\<lambda>(p, q, P, Q). information_criterion lib (arg env ''timeseries_dataset'')
                (p, n_d, q)
                (P, n_D, Q, m))
             True
             (candidates start_p max_p start_q max_q start_P max_P start_Q max_Q) None of
        Inl e \<Rightarrow> Inl e
      | Inr None \<Rightarrow> Inl (LibraryError ''auto_arima: no model could be fitted'')
      | Inr (Some ((p, q, P, Q), v)) \<Rightarrow>
          Inr \<lparr>am_order = (p, n_d, q),
               am_seasonal_order =
                 (P, n_D, Q, m)\<rparr>)"
proof -
  have "those (map as_int
           [arg env ''m'', arg env ''start_p'', arg env ''max_p'',
            arg env ''start_q'', arg env ''max_q'', arg env ''start_P'', arg env ''max_P'',
            arg env ''start_Q'', arg env ''max_Q'',
            PInt (n_d),
            PInt (n_D)]) =
        Some [m, start_p, max_p, start_q, max_q, start_P, max_P, start_Q, max_Q,
              n_d,
              n_D]"
    using assms(2-10) by simp
  from pmd_auto_arima_ints [OF this] show ?thesis
    using assms(1,11,12) by (simp add: auto_arima_model_def)
qed


text \<open>
  C7. In the order search that \<open>auto_arima_model\<close> runs, a candidate order whose fit
  fails is skipped and nothing else: the result is the result of the same search over the
  candidates that could be fitted; as soon as one candidate of the grid can be fitted a
  model is returned, whatever failed; and taking a failing candidate out of the grid
  changes nothing.
\<close>

theorem order_search_skips_failures:
  assumes "bind_args auto_arima_model_sig pos kws = Inr env"
    and "as_int (arg env ''m'') = Some m"
    and "as_int (arg env ''start_p'') = Some start_p" and "as_int (arg env ''max_p'') = Some max_p"
    and "as_int (arg env ''start_q'') = Some start_q" and "as_int (arg env ''max_q'') = Some max_q"
    and "as_int (arg env ''start_P'') = Some start_P" and "as_int (arg env ''max_P'') = Some max_P"
    and "as_int (arg env ''start_Q'') = Some start_Q" and "as_int (arg env ''max_Q'') = Some max_Q"
    and "ndiffs lib (arg env ''timeseries_dataset'') = Inr n_d"
    and "nsdiffs lib (arg env ''timeseries_dataset'') (arg env ''m'') = Inr n_D"
    and "ic = (\<lambda>(p, q, P, Q). information_criterion lib (arg env ''timeseries_dataset'')
                (p, n_d, q)
                (P, n_D, Q, m))"
    and "cands = candidates start_p max_p start_q max_q start_P max_P start_Q max_Q"
  shows "auto_arima_model lib pos kws =
     (case grid_search ic True (filter (\<lambda>c. \<not> isl (ic c)) cands) None of
        Inl e \<Rightarrow> Inl e
      | Inr None \<Rightarrow> Inl (LibraryError ''auto_arima: no model could be fitted'')
      | Inr (Some ((p, q, P, Q), v)) \<Rightarrow>
          Inr \<lparr>am_order = (p, n_d, q),
               am_seasonal_order =
                 (P, n_D, Q, m)\<rparr>)
   \<and> ((\<exists>c \<in> set cands. \<not> isl (ic c)) \<longrightarrow> (\<exists>am. auto_arima_model lib pos kws = Inr am))
   \<and> (\<forall>cs1 c cs2. cands = cs1 @ c # cs2 \<and> isl (ic c) \<longrightarrow>
         grid_search ic True cands None = grid_search ic True (cs1 @ cs2) None)"
proof -
  note s = auto_arima_model_search [OF assms(1-12), folded assms(13) assms(14)]
  have a: "grid_search ic True cands None =
      grid_search ic True (filter (\<lambda>c. \<not> isl (ic c)) cands) None"
    by (rule grid_search_skips)
  have b: "\<exists>am. auto_arima_model lib pos kws = Inr am" if h1: "c \<in> set cands" and h2: "\<not> isl (ic c)" for c
  proof -
    obtain r where r: "grid_search ic True cands None = Inr r"
      using grid_search_total by blast
    obtain v where "ic c = Inr v" using h2 by (cases "ic c") auto
    then have "r \<noteq> None" using grid_search_finds [OF h1 _ r] by blast
    then show ?thesis unfolding s r by (auto split: prod.splits)
  qed
  have c: "grid_search ic True cands None = grid_search ic True (cs1 @ cs2) None"
    if h3: "cands = cs1 @ c # cs2" and h4: "isl (ic c)" for cs1 c cs2
  proof -
    obtain e where "ic c = Inl e" using h4 by (cases "ic c") auto
    then show ?thesis unfolding h3 by (rule grid_search_drop)
  qed
  show ?thesis using a b c unfolding s by auto
qed


lemma auto_arima_model_selects_minimum:
  assumes "bind_args auto_arima_model_sig pos kws = Inr env"
    and "as_int (arg env ''m'') = Some m"
    and "as_int (arg env ''start_p'') = Some start_p" and "as_int (arg env ''max_p'') = Some max_p"
    and "as_int (arg env ''start_q'') = Some start_q" and "as_int (arg env ''max_q'') = Some max_q"
    and "as_int (arg env ''start_P'') = Some start_P" and "as_int (arg env ''max_P'') = Some max_P"
    and "as_int (arg env ''start_Q'') = Some start_Q" and "as_int (arg env ''max_Q'') = Some max_Q"
    and "ndiffs lib (arg env ''timeseries_dataset'') = Inr n_d"
    and "nsdiffs lib (arg env ''timeseries_dataset'') (arg env ''m'') = Inr n_D"
    and "ic = (\<lambda>(p, q, P, Q). information_criterion lib (arg env ''timeseries_dataset'')
                (p, n_d, q)
                (P, n_D, Q, m))"
    and "auto_arima_model lib pos kws = Inr am"
  shows "\<exists>p q P Q v.
      am = \<lparr>am_order = (p, n_d, q),
            am_seasonal_order =
              (P, n_D, Q, m)\<rparr>
    \<and> start_p \<le> p \<and> p \<le> max_p \<and> start_q \<le> q \<and> q \<le> max_q
    \<and> start_P \<le> P \<and> P \<le> max_P \<and> start_Q \<le> Q \<and> Q \<le> max_Q
    \<and> ic (p, q, P, Q) = Inr v
    \<and> (\<forall>c' \<in> set (candidates start_p max_p start_q max_q start_P max_P start_Q max_Q).
          \<forall>v'. ic c' = Inr v' \<longrightarrow> v \<le> v')"
proof -
  let ?cands = "candidates start_p max_p start_q max_q start_P max_P start_Q max_Q"
  note s = auto_arima_model_search [OF assms(1-12), folded assms(13)]
  obtain r where r: "grid_search ic True ?cands None = Inr r"
    using grid_search_total by blast
  obtain c v where cv: "r = Some (c, v)"
    and am: "am = \<lparr>am_order = (fst c, n_d, fst (snd c)),
            am_seasonal_order =
              (fst (snd (snd c)), n_D,
               snd (snd (snd c)), m)\<rparr>"
    using assms(14) unfolding s r by (cases r) (auto split: prod.splits)
  from grid_search_minimum [OF r [unfolded cv]]
  have m1: "c \<in> set ?cands" and m2: "ic c = Inr v"
    and m3: "\<forall>c' \<in> set ?cands. \<forall>v'. ic c' = Inr v' \<longrightarrow> v \<le> v'"
    by simp_all
  obtain p q P Q where c: "c = (p, q, P, Q)" by (cases c) auto
  have "start_p \<le> p \<and> p \<le> max_p \<and> start_q \<le> q \<and> q \<le> max_q
    \<and> start_P \<le> P \<and> P \<le> max_P \<and> start_Q \<le> Q \<and> Q \<le> max_Q"
    using m1 unfolding c by (auto simp: candidates_def)
  then show ?thesis using am m2 m3 unfolding c by auto
qed

theorem order_search_skips_failures_witness:
  "bind_args auto_arima_model_sig [PSeries example_series]
      [(''max_p'', PInt 1), (''max_q'', PInt 0), (''max_P'', PInt 0), (''max_Q'', PInt 0)] =
     Inr [(''timeseries_dataset'', PSeries example_series), (''m'', PInt 12),
          (''start_p'', PInt 0), (''max_p'', PInt 1), (''start_q'', PInt 0), (''max_q'', PInt 0),
          (''start_P'', PInt 0), (''start_Q'', PInt 0), (''max_P'', PInt 0), (''max_Q'', PInt 0)]
   \<and> ndiffs example_library (PSeries example_series) = Inr 1
   \<and> nsdiffs example_library (PSeries example_series) (PInt 12) = Inr 0
   \<and> candidates 0 1 0 0 0 0 0 0 = [(0, 0, 0, 0), (1, 0, 0, 0)]
   \<and> isl (information_criterion example_library (PSeries example_series) (1, 1, 0) (0, 0, 0, 12))
   \<and> auto_arima_model example_library [PSeries example_series]
        [(''max_p'', PInt 1), (''max_q'', PInt 0), (''max_P'', PInt 0), (''max_Q'', PInt 0)] =
      Inr \<lparr>am_order = (0, 1, 0), am_seasonal_order = (0, 0, 0, 12)\<rparr>"
proof -
  let ?env = "[(''timeseries_dataset'', PSeries example_series), (''m'', PInt 12),
          (''start_p'', PInt 0), (''max_p'', PInt 1), (''start_q'', PInt 0), (''max_q'', PInt 0),
          (''start_P'', PInt 0), (''start_Q'', PInt 0), (''max_P'', PInt 0), (''max_Q'', PInt 0)]"
  have h1: "bind_args auto_arima_model_sig [PSeries example_series]
      [(''max_p'', PInt 1), (''max_q'', PInt 0), (''max_P'', PInt 0), (''max_Q'', PInt 0)] =
     Inr ?env"
    by (simp add: bind_args_def auto_arima_model_sig_def)
  have h2: "as_int (arg ?env ''m'') = Some 12"
    "as_int (arg ?env ''start_p'') = Some 0" "as_int (arg ?env ''max_p'') = Some 1"
    "as_int (arg ?env ''start_q'') = Some 0" "as_int (arg ?env ''max_q'') = Some 0"
    "as_int (arg ?env ''start_P'') = Some 0" "as_int (arg ?env ''max_P'') = Some 0"
    "as_int (arg ?env ''start_Q'') = Some 0" "as_int (arg ?env ''max_Q'') = Some 0"
    by (simp_all add: arg_def)
  have h3: "ndiffs example_library (arg ?env ''timeseries_dataset'') = Inr 1"
    "nsdiffs example_library (arg ?env ''timeseries_dataset'') (arg ?env ''m'') = Inr 0"
    by (simp_all add: arg_def example_library_def example_series_def)
  have c: "candidates 0 1 0 0 0 0 0 0 = [(0, 0, 0, 0), (1, 0, 0, 0)]"
    by (simp add: candidates_def upto.simps)
  have i: "isl (information_criterion example_library (PSeries example_series)
      (1, 1, 0) (0, 0, 0, 12))"
    by (simp add: example_library_def)
  have "auto_arima_model example_library [PSeries example_series]
        [(''max_p'', PInt 1), (''max_q'', PInt 0), (''max_P'', PInt 0), (''max_Q'', PInt 0)] =
      Inr \<lparr>am_order = (0, 1, 0), am_seasonal_order = (0, 0, 0, 12)\<rparr>"
    using order_search_skips_failures [OF h1 h2 h3 refl refl]
    by (simp add: c arg_def example_library_def)
  then show ?thesis using h1 h3 c i by (simp add: arg_def)
qed

text \<open>
  C8. With the dataset as only argument, \<open>auto_arima_model\<close> searches \<open>p\<close>, \<open>q\<close>, \<open>P\<close>,
  \<open>Q\<close> from 0 to 7 and \<open>create_best_model\<close> has the bounds 0 to 5; but
  \<open>create_best_model\<close> on the sample series raises the TypeError of its call before any
  search, so no combination is selected there.
\<close>

theorem order_search_defaults:
  "bind_args auto_arima_model_sig [x] [] =
     Inr [(''timeseries_dataset'', x), (''m'', PInt 12),
          (''start_p'', PInt 0), (''max_p'', PInt 7),
          (''start_q'', PInt 0), (''max_q'', PInt 7),
          (''start_P'', PInt 0), (''start_Q'', PInt 0),
          (''max_P'', PInt 7), (''max_Q'', PInt 7)]
   \<and> bind_args create_best_model_sig [x] [] =
     Inr [(''timeseries_dataset'', x), (''m'', PInt 12),
          (''start_p'', PInt 0), (''max_p'', PInt 5),
          (''start_q'', PInt 0), (''max_q'', PInt 5),
          (''start_P'', PInt 0), (''start_Q'', PInt 0),
          (''max_P'', PInt 5), (''max_Q'', PInt 5), (''show_vis'', PBool False)]
   \<and> fst (create_best_model example_library [PSeries example_series] []) =
       Inl (TypeError (Unexpected_keyword ''n_d''))"
  by (simp add: create_best_model_rejected bind_args_def auto_arima_model_sig_def
        create_best_model_sig_def arg_def example_library_def example_series_def)

subsection \<open>The stages of the workflow\<close>

lemma fst_sarimax_fit:
  "fst (sarimax_fit lib a) =
     (case maximum_likelihood lib a of
        Inl e \<Rightarrow> Inl e | Inr ps \<Rightarrow> Inr \<lparr>fm_args = a, fm_params = ps\<rparr>)"
  by (simp add: sarimax_fit_def fst_seq split: sum.splits)

lemma fits_sarimax_fit: "fits (snd (sarimax_fit lib a)) = [a]"
  by (simp add: sarimax_fit_def fits_seq split: sum.splits)

lemma fst_model_performance:
  "fst (model_performance lib fm sv) = Inr (summary lib fm, [Diagnostics fm])"
  by (simp add: model_performance_def fst_seq)

lemma fits_model_performance: "fits (snd (model_performance lib fm sv)) = []"
  by (simp add: model_performance_def fits_seq fst_seq)

lemma fst_plot_forecast_ttf:
  "fst (plot_forecast_ttf train test forecast_df n_yrs_past sv) =
     (case last_index train of
        Inl e \<Rightarrow> Inl e
      | Inr t \<Rightarrow>
          Inr ([Line ''Training Data'' (s_rows (iloc_from train (- (12 * n_yrs_past)))),
                Line ''Test Data'' (s_rows test),
                Line ''Forecast'' (map (\<lambda>(t, lo, hi, mean). (t, mean)) forecast_df),
                Band (map (\<lambda>(t, lo, hi, mean). (t, lo, hi)) forecast_df),
                Title (s_name train), Vline t]))"
  by (simp add: plot_forecast_ttf_def Let_def fst_seq split: sum.splits)

lemma fits_plot_forecast_ttf: "fits (snd (plot_forecast_ttf train test forecast_df n sv)) = []"
  by (simp add: plot_forecast_ttf_def Let_def fits_seq split: sum.splits)

lemma fst_plot_forecast_final:
  "fst (plot_forecast_final zipcode_val forecast_full sv) =
     (case last_index zipcode_val of
        Inl e \<Rightarrow> Inl e
      | Inr t \<Rightarrow>
          Inr ([Line ''Original Data'' (s_rows zipcode_val),
                Line ''Forecast'' (map (\<lambda>(t, lo, hi, mean). (t, mean)) forecast_full),
                Band (map (\<lambda>(t, lo, hi, mean). (t, lo, hi)) forecast_full),
                Title (s_name zipcode_val), Vline t]))"
  by (simp add: plot_forecast_final_def Let_def fst_seq split: sum.splits)

lemma fits_plot_forecast_final: "fits (snd (plot_forecast_final zv forecast_full sv)) = []"
  by (simp add: plot_forecast_final_def Let_def fits_seq split: sum.splits)

lemma fst_create_best_model_calling:
  "fst (create_best_model_calling callee lib pos kws) =
     (case bind_args create_best_model_sig pos kws of
        Inl te \<Rightarrow> Inl (TypeError te)
      | Inr env \<Rightarrow>
          (case ndiffs lib (arg env ''timeseries_dataset'') of
             Inl e \<Rightarrow> Inl e
           | Inr n_d \<Rightarrow>
          (case nsdiffs lib (arg env ''timeseries_dataset'') (arg env ''m'') of
             Inl e \<Rightarrow> Inl e
           | Inr n_D \<Rightarrow>
          (case callee (fst (selection_call env n_d n_D)) (snd (selection_call env n_d n_D)) of
             Inl e \<Rightarrow> Inl e
           | Inr auto_model_best \<Rightarrow>
               (case maximum_likelihood lib
                       \<lparr>endog = arg env ''timeseries_dataset'',
                        sx_order = am_order auto_model_best,
                        sx_seasonal_order = am_seasonal_order auto_model_best,
                        enforce_invertibility = False\<rparr> of
                  Inl e \<Rightarrow> Inl e
                | Inr ps \<Rightarrow>
                    Inr (auto_model_best,
                         \<lparr>fm_args = \<lparr>endog = arg env ''timeseries_dataset'',
                                      sx_order = am_order auto_model_best,
                                      sx_seasonal_order = am_seasonal_order auto_model_best,
                                      enforce_invertibility = False\<rparr>,
                          fm_params = ps\<rparr>))))))"
  by (simp add: create_best_model_calling_def fst_seq fst_sarimax_fit fst_model_performance
      split: sum.splits)

lemma fits_create_best_model_calling:
  "fits (snd (create_best_model_calling callee lib pos kws)) =
     (case bind_args create_best_model_sig pos kws of
        Inl te \<Rightarrow> []
      | Inr env \<Rightarrow>
          (case ndiffs lib (arg env ''timeseries_dataset'') of
             Inl e \<Rightarrow> []
           | Inr n_d \<Rightarrow>
          (case nsdiffs lib (arg env ''timeseries_dataset'') (arg env ''m'') of
             Inl e \<Rightarrow> []
           | Inr n_D \<Rightarrow>
          (case callee (fst (selection_call env n_d n_D)) (snd (selection_call env n_d n_D)) of
             Inl e \<Rightarrow> []
           | Inr auto_model_best \<Rightarrow>
               [\<lparr>endog = arg env ''timeseries_dataset'',
                 sx_order = am_order auto_model_best,
                 sx_seasonal_order = am_seasonal_order auto_model_best,
                 enforce_invertibility = False\<rparr>]))))"
  by (simp add: create_best_model_calling_def fits_seq fst_sarimax_fit fits_sarimax_fit
        fst_model_performance fits_model_performance
      split: sum.splits)

lemma fst_workflow:
  "fst (ts_modeling_workflow_calling callee lib df z thr m np nf sv) =
     (case column df z of Inl e \<Rightarrow> Inl e | Inr zv \<Rightarrow>
     (case fst (ts_split zv thr sv) of Inl e \<Rightarrow> Inl e | Inr (train, test) \<Rightarrow>
     (case fst (create_best_model_calling callee lib []
                  [(''timeseries_dataset'', PSeries train), (''m'', PInt m)]) of
        Inl e \<Rightarrow> Inl e | Inr (auto_model_train, bt) \<Rightarrow>
     (case forecast_and_ci lib bt (Some test) None of Inl e \<Rightarrow> Inl e | Inr forecast_train \<Rightarrow>
     (case fst (plot_forecast_ttf train test forecast_train np False) of
        Inl e \<Rightarrow> Inl e | Inr training_frcst \<Rightarrow>
     (case fst (sarimax_fit lib
                 \<lparr>endog = PSeries zv, sx_order = am_order auto_model_train,
                  sx_seasonal_order = am_seasonal_order auto_model_train,
                  enforce_invertibility = False\<rparr>) of
        Inl e \<Rightarrow> Inl e | Inr bf \<Rightarrow>
     (case forecast_and_ci lib bf None (Some nf) of Inl e \<Rightarrow> Inl e | Inr forecast_full \<Rightarrow>
     (case fst (plot_forecast_final zv forecast_full False) of
        Inl e \<Rightarrow> Inl e | Inr final_frcst \<Rightarrow>
     (case investment_cost forecast_full of Inl e \<Rightarrow> Inl e | Inr cost \<Rightarrow>
     (case last_row (roi_df forecast_full cost) of Inl e \<Rightarrow> Inl e | Inr (t, lo, hi, mean) \<Rightarrow>
     (case astype_str (s_name zv) of Inl e \<Rightarrow> Inl e | Inr name \<Rightarrow>
        Inr (forecast_full,
             \<lparr>roi_name = name, roi_lower = lo, roi_upper = hi, roi_forecast = mean\<rparr>,
             summary lib bt, [Diagnostics bt], summary lib bf, [Diagnostics bf],
             training_frcst, final_frcst))))))))))))"
  by (simp add: ts_modeling_workflow_calling_def fst_seq case_prod_beta fst_model_performance
        fst_plot_forecast_ttf fst_plot_forecast_final
      cong: sum.case_cong)

lemma fits_workflow:
  "fits (snd (ts_modeling_workflow_calling callee lib df z thr m np nf sv)) =
     (case column df z of Inl e \<Rightarrow> [] | Inr zv \<Rightarrow>
     (case fst (ts_split zv thr sv) of Inl e \<Rightarrow> [] | Inr (train, test) \<Rightarrow>
       fits (snd (create_best_model_calling callee lib []
                    [(''timeseries_dataset'', PSeries train), (''m'', PInt m)])) @
     (case fst (create_best_model_calling callee lib []
                  [(''timeseries_dataset'', PSeries train), (''m'', PInt m)]) of
        Inl e \<Rightarrow> [] | Inr (auto_model_train, bt) \<Rightarrow>
     (case forecast_and_ci lib bt (Some test) None of Inl e \<Rightarrow> [] | Inr forecast_train \<Rightarrow>
     (case last_index train of Inl e \<Rightarrow> [] | Inr t \<Rightarrow>
        [\<lparr>endog = PSeries zv, sx_order = am_order auto_model_train,
          sx_seasonal_order = am_seasonal_order auto_model_train,
          enforce_invertibility = False\<rparr>])))))"
  by (simp add: ts_modeling_workflow_calling_def fits_seq fst_seq case_prod_beta
        fst_model_performance fits_model_performance fits_ts_split
        fst_plot_forecast_ttf fits_plot_forecast_ttf
        fst_plot_forecast_final fits_plot_forecast_final fits_sarimax_fit
      split: sum.splits)

text \<open>
  C9. Two runs of \<open>ts_modeling_workflow\<close> that differ only in \<open>show_vis\<close> either both raise
  or both return, and then they return the same tuple: the same forecast frame, the same
  final ROI, the same two summaries, and the same figures. The flag decides only what is
  shown and closed on the way. (When both raise, the exceptions can differ: with
  \<open>show_vis\<close> the plot of the split reads \<open>train.index[-1]\<close> before anything is modelled.)
  This holds whatever function the name \<open>auto_arima_model\<close> is bound to.
\<close>

theorem show_vis_keeps_results:
  "map_sum (\<lambda>e. ()) id (fst (ts_modeling_workflow_calling callee lib df z thr m np nf True)) =
   map_sum (\<lambda>e. ()) id (fst (ts_modeling_workflow_calling callee lib df z thr m np nf False))"
proof (cases "column df z")
  case (Inl e)
  then show ?thesis by (simp add: fst_workflow)
next
  case zv: (Inr zv)
  show ?thesis
  proof (cases "int_times_float (int (length (s_rows zv))) thr")
    case (Inl e)
    then have "fst (ts_split zv thr True) = Inl e" "fst (ts_split zv thr False) = Inl e"
      by (simp_all add: fst_ts_split)
    then show ?thesis using zv by (simp add: fst_workflow)
  next
    case p: (Inr p)
    show ?thesis
    proof (cases "round_float p")
      case (Inl e)
      then have "fst (ts_split zv thr True) = Inl e" "fst (ts_split zv thr False) = Inl e"
        using p by (simp_all add: fst_ts_split)
      then show ?thesis using zv by (simp add: fst_workflow)
    next
      case c: (Inr c)
      let ?train = "iloc_to zv c"
      let ?test = "iloc_from zv c"
      have f: "fst (ts_split zv thr False) = Inr (?train, ?test)"
        using p c by (simp add: fst_ts_split)
      show ?thesis
      proof (cases "last_index ?train")
        case (Inl e)
        then have t: "fst (ts_split zv thr True) = Inl e"
          using p c by (simp add: fst_ts_split)
        have "\<exists>e'. fst (ts_modeling_workflow_calling callee lib df z thr m np nf False) = Inl e'"
          using zv Inl f by (simp add: fst_workflow fst_plot_forecast_ttf split: sum.splits)
        then show ?thesis using zv t by (auto simp: fst_workflow)
      next
        case (Inr t0)
        then have "fst (ts_split zv thr True) = Inr (?train, ?test)"
          using p c by (simp add: fst_ts_split)
        then show ?thesis using zv f by (simp add: fst_workflow)
      qed
    qed
  qed
qed

subsection \<open>The models that are fitted\<close>

lemma create_best_model_calling_fit:
  assumes "a \<in> set (fits (snd (create_best_model_calling callee lib pos kws)))"
  shows "\<exists>env n_d n_D auto_model_best.
      bind_args create_best_model_sig pos kws = Inr env
    \<and> ndiffs lib (arg env ''timeseries_dataset'') = Inr n_d
    \<and> nsdiffs lib (arg env ''timeseries_dataset'') (arg env ''m'') = Inr n_D
    \<and> callee (fst (selection_call env n_d n_D)) (snd (selection_call env n_d n_D)) =
        Inr auto_model_best
    \<and> a = \<lparr>endog = arg env ''timeseries_dataset'', sx_order = am_order auto_model_best,
           sx_seasonal_order = am_seasonal_order auto_model_best,
           enforce_invertibility = False\<rparr>"
proof (cases "bind_args create_best_model_sig pos kws")
  case (Inl te)
  then show ?thesis using assms by (simp add: fits_create_best_model_calling)
next
  case (Inr env)
  show ?thesis
  proof (cases "ndiffs lib (arg env ''timeseries_dataset'')")
    case (Inl e)
    then show ?thesis using assms Inr by (simp add: fits_create_best_model_calling)
  next
    case d: (Inr n_d)
    show ?thesis
    proof (cases "nsdiffs lib (arg env ''timeseries_dataset'') (arg env ''m'')")
      case (Inl e)
      then show ?thesis using assms Inr d by (simp add: fits_create_best_model_calling)
    next
      case D: (Inr n_D)
      show ?thesis
      proof (cases "callee (fst (selection_call env n_d n_D)) (snd (selection_call env n_d n_D))")
        case (Inl e)
        then show ?thesis using assms Inr d D by (simp add: fits_create_best_model_calling)
      next
        case auto: (Inr auto_model_best)
        then show ?thesis using assms Inr d D by (simp add: fits_create_best_model_calling)
      qed
    qed
  qed
qed

lemma create_best_model_calling_returns:
  assumes "fst (create_best_model_calling callee lib pos kws) = Inr (auto_model_best, best_model)"
  shows "\<exists>env n_d n_D ps.
      bind_args create_best_model_sig pos kws = Inr env
    \<and> ndiffs lib (arg env ''timeseries_dataset'') = Inr n_d
    \<and> nsdiffs lib (arg env ''timeseries_dataset'') (arg env ''m'') = Inr n_D
    \<and> callee (fst (selection_call env n_d n_D)) (snd (selection_call env n_d n_D)) =
        Inr auto_model_best
    \<and> maximum_likelihood lib
         \<lparr>endog = arg env ''timeseries_dataset'', sx_order = am_order auto_model_best,
          sx_seasonal_order = am_seasonal_order auto_model_best,
          enforce_invertibility = False\<rparr> = Inr ps
    \<and> best_model =
         \<lparr>fm_args = \<lparr>endog = arg env ''timeseries_dataset'', sx_order = am_order auto_model_best,
                      sx_seasonal_order = am_seasonal_order auto_model_best,
                      enforce_invertibility = False\<rparr>,
          fm_params = ps\<rparr>"
proof (cases "bind_args create_best_model_sig pos kws")
  case (Inl te)
  then show ?thesis using assms by (simp add: fst_create_best_model_calling)
next
  case (Inr env)
  show ?thesis
  proof (cases "ndiffs lib (arg env ''timeseries_dataset'')")
    case (Inl e)
    then show ?thesis using assms Inr by (simp add: fst_create_best_model_calling)
  next
    case d: (Inr n_d)
    show ?thesis
    proof (cases "nsdiffs lib (arg env ''timeseries_dataset'') (arg env ''m'')")
      case (Inl e)
      then show ?thesis using assms Inr d by (simp add: fst_create_best_model_calling)
    next
      case D: (Inr n_D)
      show ?thesis
      proof (cases "callee (fst (selection_call env n_d n_D)) (snd (selection_call env n_d n_D))")
        case (Inl e)
        then show ?thesis using assms Inr d D by (simp add: fst_create_best_model_calling)
      next
        case auto: (Inr am)
        show ?thesis
        proof (cases "maximum_likelihood lib
             \<lparr>endog = arg env ''timeseries_dataset'', sx_order = am_order am,
              sx_seasonal_order = am_seasonal_order am, enforce_invertibility = False\<rparr>")
          case (Inl e)
          then show ?thesis using assms Inr d D auto
            by (simp add: fst_create_best_model_calling)
        next
          case ml: (Inr ps)
          then show ?thesis using assms Inr d D auto
            by (simp add: fst_create_best_model_calling) blast
        qed
      qed
    qed
  qed
qed

lemma workflow_fit:
  assumes "a \<in> set (fits (snd (ts_modeling_workflow_calling callee lib df z thr m np nf sv)))"
  shows "\<exists>zv train test env n_d n_D auto_model_train.
            column df z = Inr zv
          \<and> fst (ts_split zv thr sv) = Inr (train, test)
          \<and> bind_args create_best_model_sig []
                [(''timeseries_dataset'', PSeries train), (''m'', PInt m)] = Inr env
          \<and> ndiffs lib (PSeries train) = Inr n_d
          \<and> nsdiffs lib (PSeries train) (PInt m) = Inr n_D
          \<and> callee (fst (selection_call env n_d n_D)) (snd (selection_call env n_d n_D)) =
              Inr auto_model_train
          \<and> (a = \<lparr>endog = PSeries train, sx_order = am_order auto_model_train,
                    sx_seasonal_order = am_seasonal_order auto_model_train,
                    enforce_invertibility = False\<rparr>
             \<or> a = \<lparr>endog = PSeries zv, sx_order = am_order auto_model_train,
                    sx_seasonal_order = am_seasonal_order auto_model_train,
                    enforce_invertibility = False\<rparr>)"
proof -
  obtain zv where zv: "column df z = Inr zv"
    using assms by (cases "column df z") (simp_all add: fits_workflow)
  obtain train test where tt: "fst (ts_split zv thr sv) = Inr (train, test)"
    using assms zv by (cases "fst (ts_split zv thr sv)") (auto simp: fits_workflow)
  let ?c = "create_best_model_calling callee lib []
              [(''timeseries_dataset'', PSeries train), (''m'', PInt m)]"
  have mem: "a \<in> set (fits (snd ?c))
      \<or> (\<exists>am bt. fst ?c = Inr (am, bt)
            \<and> a = \<lparr>endog = PSeries zv, sx_order = am_order am,
                    sx_seasonal_order = am_seasonal_order am,
                    enforce_invertibility = False\<rparr>)"
  proof (cases "fst ?c")
    case (Inl e)
    then show ?thesis using assms zv tt by (simp add: fits_workflow)
  next
    case (Inr r)
    obtain am bt where r: "r = (am, bt)" by (cases r) auto
    show ?thesis using assms zv tt Inr unfolding r
      by (auto simp: fits_workflow split: sum.splits)
  qed
  then show ?thesis
  proof
    assume "a \<in> set (fits (snd ?c))"
    from create_best_model_calling_fit [OF this]
    obtain env n_d n_D am where
      e: "bind_args create_best_model_sig []
            [(''timeseries_dataset'', PSeries train), (''m'', PInt m)] = Inr env"
      and d: "ndiffs lib (arg env ''timeseries_dataset'') = Inr n_d"
        "nsdiffs lib (arg env ''timeseries_dataset'') (arg env ''m'') = Inr n_D"
      and c: "callee (fst (selection_call env n_d n_D)) (snd (selection_call env n_d n_D)) =
        Inr am"
      and a: "a = \<lparr>endog = arg env ''timeseries_dataset'', sx_order = am_order am,
           sx_seasonal_order = am_seasonal_order am, enforce_invertibility = False\<rparr>"
      by blast
    have v: "arg env ''timeseries_dataset'' = PSeries train" "arg env ''m'' = PInt m"
      using e by (auto simp: bind_workflow_call arg_def)
    show ?thesis using zv tt e d c a unfolding v by blast
  next
    assume "\<exists>am bt. fst ?c = Inr (am, bt)
            \<and> a = \<lparr>endog = PSeries zv, sx_order = am_order am,
                    sx_seasonal_order = am_seasonal_order am,
                    enforce_invertibility = False\<rparr>"
    then obtain am bt where r: "fst ?c = Inr (am, bt)"
      and a: "a = \<lparr>endog = PSeries zv, sx_order = am_order am,
                    sx_seasonal_order = am_seasonal_order am,
                    enforce_invertibility = False\<rparr>"
      by blast
    from create_best_model_calling_returns [OF r]
    obtain env n_d n_D where
      e: "bind_args create_best_model_sig []
            [(''timeseries_dataset'', PSeries train), (''m'', PInt m)] = Inr env"
      and d: "ndiffs lib (arg env ''timeseries_dataset'') = Inr n_d"
        "nsdiffs lib (arg env ''timeseries_dataset'') (arg env ''m'') = Inr n_D"
      and c: "callee (fst (selection_call env n_d n_D)) (snd (selection_call env n_d n_D)) =
        Inr am"
      by blast
    have v: "arg env ''timeseries_dataset'' = PSeries train" "arg env ''m'' = PInt m"
      using e by (auto simp: bind_workflow_call arg_def)
    show ?thesis using zv tt e d c a unfolding v by blast
  qed
qed

text \<open>
  C6. Every SARIMAX model that \<open>create_best_model\<close> and \<open>ts_modeling_workflow\<close> build, the
  fit on the training data and the refit on the whole series, is built with
  \<open>enforce_invertibility=False\<close> and with the order and the seasonal order of the model that
  the order selection returned, on the data the function was given (the training part, then
  the whole series); and the model \<open>create_best_model\<close> returns is the one it built, with the
  maximum likelihood estimate of the library as parameters. This holds whatever function
  the name \<open>auto_arima_model\<close> is bound to; with the function of the module no model is
  built at all.
\<close>

theorem sarimax_models_built:
  "(\<forall>a \<in> set (fits (snd (create_best_model_calling callee lib pos kws))).
      \<not> enforce_invertibility a
      \<and> (\<exists>env n_d n_D auto_model_best.
            bind_args create_best_model_sig pos kws = Inr env
          \<and> ndiffs lib (arg env ''timeseries_dataset'') = Inr n_d
          \<and> nsdiffs lib (arg env ''timeseries_dataset'') (arg env ''m'') = Inr n_D
          \<and> callee (fst (selection_call env n_d n_D)) (snd (selection_call env n_d n_D)) =
              Inr auto_model_best
          \<and> endog a = arg env ''timeseries_dataset''
          \<and> sx_order a = am_order auto_model_best
          \<and> sx_seasonal_order a = am_seasonal_order auto_model_best))
   \<and> (\<forall>a \<in> set (fits (snd (ts_modeling_workflow_calling callee lib df z thr m np nf sv))).
      \<not> enforce_invertibility a
      \<and> (\<exists>zv train test env n_d n_D auto_model_train.
            column df z = Inr zv
          \<and> fst (ts_split zv thr sv) = Inr (train, test)
          \<and> bind_args create_best_model_sig []
                [(''timeseries_dataset'', PSeries train), (''m'', PInt m)] = Inr env
          \<and> ndiffs lib (PSeries train) = Inr n_d
          \<and> nsdiffs lib (PSeries train) (PInt m) = Inr n_D
          \<and> callee (fst (selection_call env n_d n_D)) (snd (selection_call env n_d n_D)) =
              Inr auto_model_train
          \<and> (endog a = PSeries train \<or> endog a = PSeries zv)
          \<and> sx_order a = am_order auto_model_train
          \<and> sx_seasonal_order a = am_seasonal_order auto_model_train))
   \<and> (\<forall>auto_model_best best_model.
        fst (create_best_model_calling callee lib pos kws) = Inr (auto_model_best, best_model)
        \<longrightarrow> fits (snd (create_best_model_calling callee lib pos kws)) = [fm_args best_model]
          \<and> maximum_likelihood lib (fm_args best_model) = Inr (fm_params best_model))"
proof (intro conjI ballI allI impI)
  fix a assume "a \<in> set (fits (snd (create_best_model_calling callee lib pos kws)))"
  from create_best_model_calling_fit [OF this]
  show "\<not> enforce_invertibility a" by auto
next
  fix a assume "a \<in> set (fits (snd (create_best_model_calling callee lib pos kws)))"
  from create_best_model_calling_fit [OF this]
  obtain env n_d n_D am where
    h: "bind_args create_best_model_sig pos kws = Inr env"
       "ndiffs lib (arg env ''timeseries_dataset'') = Inr n_d"
       "nsdiffs lib (arg env ''timeseries_dataset'') (arg env ''m'') = Inr n_D"
       "callee (fst (selection_call env n_d n_D)) (snd (selection_call env n_d n_D)) = Inr am"
    and a: "a = \<lparr>endog = arg env ''timeseries_dataset'', sx_order = am_order am,
           sx_seasonal_order = am_seasonal_order am, enforce_invertibility = False\<rparr>"
    by blast
  have "endog a = arg env ''timeseries_dataset'' \<and> sx_order a = am_order am
      \<and> sx_seasonal_order a = am_seasonal_order am"
    using a by simp
  then show "\<exists>env n_d n_D auto_model_best.
            bind_args create_best_model_sig pos kws = Inr env
          \<and> ndiffs lib (arg env ''timeseries_dataset'') = Inr n_d
          \<and> nsdiffs lib (arg env ''timeseries_dataset'') (arg env ''m'') = Inr n_D
          \<and> callee (fst (selection_call env n_d n_D)) (snd (selection_call env n_d n_D)) =
              Inr auto_model_best
          \<and> endog a = arg env ''timeseries_dataset''
          \<and> sx_order a = am_order auto_model_best
          \<and> sx_seasonal_order a = am_seasonal_order auto_model_best"
    using h by blast
next
  fix a
  assume "a \<in> set (fits (snd (ts_modeling_workflow_calling callee lib df z thr m np nf sv)))"
  from workflow_fit [OF this]
  show "\<not> enforce_invertibility a" by auto
next
  fix a
  assume "a \<in> set (fits (snd (ts_modeling_workflow_calling callee lib df z thr m np nf sv)))"
  from workflow_fit [OF this]
  obtain zv train test env n_d n_D am where
    h: "column df z = Inr zv" "fst (ts_split zv thr sv) = Inr (train, test)"
       "bind_args create_best_model_sig []
                [(''timeseries_dataset'', PSeries train), (''m'', PInt m)] = Inr env"
       "ndiffs lib (PSeries train) = Inr n_d"
       "nsdiffs lib (PSeries train) (PInt m) = Inr n_D"
       "callee (fst (selection_call env n_d n_D)) (snd (selection_call env n_d n_D)) = Inr am"
    and a: "a = \<lparr>endog = PSeries train, sx_order = am_order am,
                    sx_seasonal_order = am_seasonal_order am,
                    enforce_invertibility = False\<rparr>
             \<or> a = \<lparr>endog = PSeries zv, sx_order = am_order am,
                    sx_seasonal_order = am_seasonal_order am,
                    enforce_invertibility = False\<rparr>"
    by blast
  have "(endog a = PSeries train \<or> endog a = PSeries zv)
          \<and> sx_order a = am_order am \<and> sx_seasonal_order a = am_seasonal_order am"
    using a by auto
  then show "\<exists>zv train test env n_d n_D auto_model_train.
            column df z = Inr zv
          \<and> fst (ts_split zv thr sv) = Inr (train, test)
          \<and> bind_args create_best_model_sig []
                [(''timeseries_dataset'', PSeries train), (''m'', PInt m)] = Inr env
          \<and> ndiffs lib (PSeries train) = Inr n_d
          \<and> nsdiffs lib (PSeries train) (PInt m) = Inr n_D
          \<and> callee (fst (selection_call env n_d n_D)) (snd (selection_call env n_d n_D)) =
              Inr auto_model_train
          \<and> (endog a = PSeries train \<or> endog a = PSeries zv)
          \<and> sx_order a = am_order auto_model_train
          \<and> sx_seasonal_order a = am_seasonal_order auto_model_train"
    using h by blast
next
  fix auto_model_best best_model
  assume r: "fst (create_best_model_calling callee lib pos kws) = Inr (auto_model_best, best_model)"
  from create_best_model_calling_returns [OF r]
  show "fits (snd (create_best_model_calling callee lib pos kws)) = [fm_args best_model]"
    by (auto simp: fits_create_best_model_calling)
next
  fix auto_model_best best_model
  assume r: "fst (create_best_model_calling callee lib pos kws) = Inr (auto_model_best, best_model)"
  from create_best_model_calling_returns [OF r]
  show "maximum_likelihood lib (fm_args best_model) = Inr (fm_params best_model)"
    by auto
qed

subsection \<open>The result bundle\<close>

lemma sum_case_InrE:
  assumes "(case s of Inl e \<Rightarrow> Inl e | Inr x \<Rightarrow> f x) = Inr y"
  obtains x where "s = Inr x" and "f x = Inr y"
  using assms by (cases s) auto

lemma workflow_returns:
  assumes "fst (ts_modeling_workflow_calling callee lib df z thr m np nf sv) = Inr R"
  shows "\<exists>zv train test am bt forecast_train training_frcst bf forecast_full final_frcst
          cost t lo hi mean name.
      column df z = Inr zv
    \<and> fst (ts_split zv thr sv) = Inr (train, test)
    \<and> fst (create_best_model_calling callee lib []
              [(''timeseries_dataset'', PSeries train), (''m'', PInt m)]) = Inr (am, bt)
    \<and> forecast_and_ci lib bt (Some test) None = Inr forecast_train
    \<and> fst (plot_forecast_ttf train test forecast_train np False) = Inr training_frcst
    \<and> fst (sarimax_fit lib
              \<lparr>endog = PSeries zv, sx_order = am_order am,
               sx_seasonal_order = am_seasonal_order am,
               enforce_invertibility = False\<rparr>) = Inr bf
    \<and> forecast_and_ci lib bf None (Some nf) = Inr forecast_full
    \<and> fst (plot_forecast_final zv forecast_full False) = Inr final_frcst
    \<and> investment_cost forecast_full = Inr cost
    \<and> last_row (roi_df forecast_full cost) = Inr (t, lo, hi, mean)
    \<and> astype_str (s_name zv) = Inr name
    \<and> R = (forecast_full,
           \<lparr>roi_name = name, roi_lower = lo, roi_upper = hi, roi_forecast = mean\<rparr>,
           summary lib bt, [Diagnostics bt], summary lib bf, [Diagnostics bf],
           training_frcst, final_frcst)"
  using assms unfolding fst_workflow
  apply -
  apply (erule sum_case_InrE, (clarify)?, (simp only: prod.case)?)+
  apply (simp only: sum.inject)
  apply blast
  done

lemma make_dict_calling_returns:
  assumes "fst (make_dict_calling callee lib df z m sv) = Inr b"
  shows "\<exists>forecast roi summary_train diag_train summary_full diag_full training_frcst final_frcst.
      fst (ts_modeling_workflow_calling callee lib df z default_threshold m 5 2 sv) =
        Inr (forecast, roi, summary_train, diag_train, summary_full, diag_full,
             training_frcst, final_frcst)
    \<and> b = [''forecasted_prices'' \<mapsto> Forecasted_prices forecast,
           ''ROI'' \<mapsto> Roi roi,
           ''model_metrics'' \<mapsto> Model_metrics
              [''train'' \<mapsto> (summary_train, diag_train),
               ''full'' \<mapsto> (summary_full, diag_full)],
           ''model_visuals'' \<mapsto> Model_visuals
              [''train'' \<mapsto> training_frcst, ''full'' \<mapsto> final_frcst]]"
proof (cases "fst (ts_modeling_workflow_calling callee lib df z default_threshold m 5 2 sv)")
  case (Inl e)
  then show ?thesis using assms by (simp add: make_dict_calling_def fst_seq)
next
  case (Inr R)
  obtain forecast roi summary_train diag_train summary_full diag_full training_frcst final_frcst
    where R: "R = (forecast, roi, summary_train, diag_train, summary_full, diag_full,
                   training_frcst, final_frcst)"
    by (cases R) auto
  show ?thesis using assms Inr unfolding R
    by (simp add: make_dict_calling_def fst_seq Let_def)
qed

text \<open>
  C10. When \<open>make_dict\<close> returns, the dictionary has the four keys \<open>forecasted_prices\<close>,
  \<open>ROI\<close>, \<open>model_metrics\<close> and \<open>model_visuals\<close>: the first is the whole frame forecast for
  the two years after the series by the model fitted on the whole series; the second is
  the last row, and only the last row, of the ROI frame of that forecast; the third has
  exactly the two keys \<open>train\<close> and \<open>full\<close>, the summary and the diagnostics figure of the
  model fitted on the training data and those of the model fitted on the whole series.
  This holds whatever function the name \<open>auto_arima_model\<close> is bound to.
\<close>

theorem make_dict_bundle:
  assumes "fst (make_dict_calling callee lib df z m sv) = Inr b"
  shows "\<exists>zv train test am bt bf forecast_full cost t lo hi mean name metrics.
      column df z = Inr zv
    \<and> fst (ts_split zv default_threshold sv) = Inr (train, test)
    \<and> fst (create_best_model_calling callee lib []
              [(''timeseries_dataset'', PSeries train), (''m'', PInt m)]) = Inr (am, bt)
    \<and> endog (fm_args bt) = PSeries train
    \<and> fst (sarimax_fit lib
              \<lparr>endog = PSeries zv, sx_order = am_order am,
               sx_seasonal_order = am_seasonal_order am,
               enforce_invertibility = False\<rparr>) = Inr bf
    \<and> endog (fm_args bf) = PSeries zv
    \<and> forecast_and_ci lib bf None (Some 2) = Inr forecast_full
    \<and> investment_cost forecast_full = Inr cost
    \<and> last_row (roi_df forecast_full cost) = Inr (t, lo, hi, mean)
    \<and> astype_str (s_name zv) = Inr name
    \<and> dom b = {''forecasted_prices'', ''ROI'', ''model_metrics'', ''model_visuals''}
    \<and> b ''forecasted_prices'' = Some (Forecasted_prices forecast_full)
    \<and> b ''ROI'' =
        Some (Roi \<lparr>roi_name = name, roi_lower = lo, roi_upper = hi, roi_forecast = mean\<rparr>)
    \<and> b ''model_metrics'' = Some (Model_metrics metrics)
    \<and> dom metrics = {''train'', ''full''}
    \<and> metrics ''train'' = Some (summary lib bt, [Diagnostics bt])
    \<and> metrics ''full'' = Some (summary lib bf, [Diagnostics bf])"
proof -
  from make_dict_calling_returns [OF assms]
  obtain forecast roi summary_train diag_train summary_full diag_full training_frcst final_frcst
    where w: "fst (ts_modeling_workflow_calling callee lib df z default_threshold m 5 2 sv) =
        Inr (forecast, roi, summary_train, diag_train, summary_full, diag_full,
             training_frcst, final_frcst)"
    and b: "b = [''forecasted_prices'' \<mapsto> Forecasted_prices forecast,
           ''ROI'' \<mapsto> Roi roi,
           ''model_metrics'' \<mapsto> Model_metrics
              [''train'' \<mapsto> (summary_train, diag_train),
               ''full'' \<mapsto> (summary_full, diag_full)],
           ''model_visuals'' \<mapsto> Model_visuals
              [''train'' \<mapsto> training_frcst, ''full'' \<mapsto> final_frcst]]"
    by blast
  from workflow_returns [OF w]
  obtain zv train test am bt bf cost t lo hi mean name where
    s: "column df z = Inr zv" "fst (ts_split zv default_threshold sv) = Inr (train, test)"
       "fst (create_best_model_calling callee lib []
              [(''timeseries_dataset'', PSeries train), (''m'', PInt m)]) = Inr (am, bt)"
       "fst (sarimax_fit lib
              \<lparr>endog = PSeries zv, sx_order = am_order am,
               sx_seasonal_order = am_seasonal_order am,
               enforce_invertibility = False\<rparr>) = Inr bf"
       "forecast_and_ci lib bf None (Some 2) = Inr forecast"
       "investment_cost forecast = Inr cost"
       "last_row (roi_df forecast cost) = Inr (t, lo, hi, mean)"
       "astype_str (s_name zv) = Inr name"
    and r: "roi = \<lparr>roi_name = name, roi_lower = lo, roi_upper = hi, roi_forecast = mean\<rparr>"
       "summary_train = summary lib bt" "diag_train = [Diagnostics bt]"
       "summary_full = summary lib bf" "diag_full = [Diagnostics bf]"
    by auto
  have e1: "endog (fm_args bt) = PSeries train"
    using create_best_model_calling_returns [OF s(3)] by (auto simp: bind_workflow_call arg_def)
  have e2: "endog (fm_args bf) = PSeries zv"
    using s(4) by (auto simp: fst_sarimax_fit split: sum.splits)
  let ?metrics = "[''train'' \<mapsto> (summary_train, diag_train),
                   ''full'' \<mapsto> (summary_full, diag_full)]"
  have d: "dom b = {''forecasted_prices'', ''ROI'', ''model_metrics'', ''model_visuals''}"
    unfolding b by auto
  have m: "dom ?metrics = {''train'', ''full''}" by auto
  have v: "b ''forecasted_prices'' = Some (Forecasted_prices forecast)"
    "b ''ROI'' = Some (Roi roi)" "b ''model_metrics'' = Some (Model_metrics ?metrics)"
    unfolding b by simp_all
  have mv: "?metrics ''train'' = Some (summary lib bt, [Diagnostics bt])"
    "?metrics ''full'' = Some (summary lib bf, [Diagnostics bf])"
    using r by simp_all
  show ?thesis
    using s e1 e2 d v m mv unfolding r(1) by blast
qed

end
